theory Spec2Isabelle
  imports Main "HOL-Library.Word"
begin

unbundle bit_operations_syntax

section \<open>The MQTT client of gsm\_mqtt\_client.c\<close>

text \<open>
  A shallow embedding of \<^verbatim>\<open>src/gsm_at_lib/src/apps/mqtt/gsm_mqtt_client.c\<close>.
  Every C function of the file is a HOL function of the same name that takes the
  client structure and returns the updated one.  Machine integers are words of the
  width the C declares (\<^verbatim>\<open>uint8_t\<close>, \<^verbatim>\<open>uint16_t\<close>, \<^verbatim>\<open>uint32_t\<close>);
  \<^verbatim>\<open>size_t\<close> lengths of buffers are natural numbers.
\<close>

type_synonym u8 = "8 word"
type_synonym u16 = "16 word"
type_synonym u32 = "32 word"

subsection \<open>Types of the headers\<close>

text \<open>The result codes of \<^verbatim>\<open>gsmr_t\<close> that this file uses.\<close>

datatype gsmr = gsmOK | gsmERR | gsmCLOSED | gsmERRMEM

text \<open>
  \<^verbatim>\<open>gsm_mqtt_state_t\<close>: the five state names the file assigns and tests.  The
  TCP connection is being opened in \<open>GSM_MQTT_CONN_CONNECTING\<close>; the CONNECT packet
  has been written and CONNACK is awaited in \<open>GSM_MQTT_CONNECTING\<close>.
\<close>

datatype gsm_mqtt_state =
    GSM_MQTT_CONN_DISCONNECTED
  | GSM_MQTT_CONN_CONNECTING
  | GSM_MQTT_CONN_DISCONNECTING
  | GSM_MQTT_CONNECTING
  | GSM_MQTT_CONNECTED

text \<open>
  \<^verbatim>\<open>gsm_mqtt_conn_status_t\<close>: the CONNACK return code as received, or the status
  the connection-error event reports.  \<open>GSM_MQTT_CONN_STATUS_ACCEPTED\<close> is return
  code 0.
\<close>

datatype gsm_mqtt_conn_status =
    GSM_MQTT_CONN_STATUS u8
  | GSM_MQTT_CONN_STATUS_TCP_FAILED

abbreviation (input) GSM_MQTT_CONN_STATUS_ACCEPTED :: gsm_mqtt_conn_status where
  "GSM_MQTT_CONN_STATUS_ACCEPTED \<equiv> GSM_MQTT_CONN_STATUS 0"

text \<open>
  \<^verbatim>\<open>gsm_mqtt_evt_t\<close>: the event descriptor handed to the application callback,
  one constructor per event type with the members of the union that belong to it.
  A user argument (\<^verbatim>\<open>void*\<close>) is an opaque number.  \<open>GSM_MQTT_EVT_PUBLISH_RECV\<close>
  carries the bytes that its (pointer, length) pairs for topic and payload denote,
  then the duplicate flag and the quality of service.
\<close>

datatype gsm_mqtt_evt =
    GSM_MQTT_EVT_CONNECT gsm_mqtt_conn_status
  | GSM_MQTT_EVT_DISCONNECT bool
  | GSM_MQTT_EVT_PUBLISH nat gsmr
  | GSM_MQTT_EVT_PUBLISH_RECV "u8 list" "u8 list" u8 u8
  | GSM_MQTT_EVT_SUBSCRIBE nat gsmr
  | GSM_MQTT_EVT_UNSUBSCRIBE nat gsmr
  | GSM_MQTT_EVT_KEEP_ALIVE

text \<open>\<^verbatim>\<open>gsm_mqtt_client_info_t\<close>; an absent string is a \<^verbatim>\<open>NULL\<close> pointer.\<close>

record gsm_mqtt_client_info =
  client_id :: "u8 list"
  user :: "u8 list option"
  pass :: "u8 list option"
  keep_alive :: u16
  will_topic :: "u8 list option"
  will_message :: "u8 list option"
  will_qos :: u8

text \<open>\<^verbatim>\<open>gsm_mqtt_request_t\<close>.\<close>

record gsm_mqtt_request =
  status :: u8
  packet_id :: u16
  arg :: nat
  expected_sent_len :: u32
  timeout_start_time :: u32

text \<open>
  Modelled from the spec: the ring transmit buffer \<^verbatim>\<open>gsm_buff_t\<close> (its code,
  \<^verbatim>\<open>gsm_buff.c\<close>, is not among the sources).  A bounded byte queue: \<open>write\<close> stores
  as many of the bytes as there is free space for, \<open>free\<close> is the space left, the
  linear read view is the contiguous readable region from the read cursor to the
  end of the storage, \<open>skip\<close> advances the read cursor over bytes the transport
  accepted, \<open>reset\<close> discards the content and realigns the cursors.
\<close>

record gsm_buff =
  buff_size :: nat
  buff_out :: nat
  buff_data :: "u8 list"

definition gsm_buff_get_free :: "gsm_buff \<Rightarrow> nat" where
  "gsm_buff_get_free b = buff_size b - length (buff_data b)"

definition gsm_buff_write :: "gsm_buff \<Rightarrow> u8 list \<Rightarrow> gsm_buff" where
  "gsm_buff_write b bs = b\<lparr>buff_data := buff_data b @ take (gsm_buff_get_free b) bs\<rparr>"

definition gsm_buff_get_linear_block_read_length :: "gsm_buff \<Rightarrow> nat" where
  "gsm_buff_get_linear_block_read_length b =
     min (length (buff_data b)) (buff_size b - buff_out b)"

definition gsm_buff_get_linear_block_read_address :: "gsm_buff \<Rightarrow> u8 list" where
  "gsm_buff_get_linear_block_read_address b =
     take (gsm_buff_get_linear_block_read_length b) (buff_data b)"

definition gsm_buff_skip :: "gsm_buff \<Rightarrow> nat \<Rightarrow> gsm_buff" where
  "gsm_buff_skip b n =
     (let k = min n (length (buff_data b))
      in b\<lparr>buff_data := drop k (buff_data b), buff_out := (buff_out b + k) mod buff_size b\<rparr>)"

definition gsm_buff_reset :: "gsm_buff \<Rightarrow> gsm_buff" where
  "gsm_buff_reset b = b\<lparr>buff_data := [], buff_out := 0\<rparr>"

definition gsm_buff_init :: "nat \<Rightarrow> gsm_buff" where
  "gsm_buff_init n = \<lparr>buff_size = n, buff_out = 0, buff_data = []\<rparr>"

text \<open>The three parser states (\<^verbatim>\<open>MQTT_PARSER_STATE_*\<close>).\<close>

datatype mqtt_parser_state =
    MQTT_PARSER_STATE_INIT
  | MQTT_PARSER_STATE_CALC_REM_LEN
  | MQTT_PARSER_STATE_READ_REM

text \<open>
  \<^verbatim>\<open>gsm_mqtt_client_t\<close>.  The fields of the C structure keep their names
  (\<open>user_arg\<close> is the structure's \<^verbatim>\<open>arg\<close>; \<^verbatim>\<open>rx_buff_len\<close> is the length of
  \<open>rx_buff\<close>; the length of \<open>requests\<close> is \<^verbatim>\<open>GSM_CFG_MQTT_MAX_REQUESTS\<close>).
  The callback \<^verbatim>\<open>evt_fn\<close> with its descriptor \<^verbatim>\<open>evt\<close> is the list \<open>events\<close> of
  the events delivered so far, oldest first.

  The remaining fields are the environment the file calls into: \<open>conn\<close> tells
  whether the connection handle is set, \<open>conn_send_res\<close> and \<open>conn_close_res\<close> are
  the results the coming calls of \<^verbatim>\<open>gsm_conn_send\<close> and \<^verbatim>\<open>gsm_conn_close\<close> will
  return (\<open>gsmOK\<close> once the list is used up), \<open>conn_wire\<close> lists the blocks
  \<^verbatim>\<open>gsm_conn_send\<close> accepted, \<open>sys_now\<close> is what \<^verbatim>\<open>gsm_sys_now\<close> returns, and
  \<open>dispatched\<close> records every call of \<open>mqtt_process_incoming_message\<close>: the
  header byte, the remaining length and the bytes of the frame.
\<close>

record gsm_mqtt_client =
  conn :: bool
  info :: gsm_mqtt_client_info
  conn_state :: gsm_mqtt_state
  poll_time :: u32
  events :: "gsm_mqtt_evt list"
  tx_buff :: gsm_buff
  is_sending :: bool
  sent_total :: u32
  written_total :: u32
  last_packet_id :: u16
  requests :: "gsm_mqtt_request list"
  rx_buff :: "u8 list"
  parser_state :: mqtt_parser_state
  msg_hdr_byte :: u8
  msg_rem_len :: u32
  msg_rem_len_mult :: u8
  msg_curr_pos :: u32
  user_arg :: nat
  conn_send_res :: "gsmr list"
  conn_close_res :: "gsmr list"
  conn_wire :: "u8 list list"
  sys_now :: u32
  dispatched :: "(u8 \<times> u32 \<times> u8 list) list"

subsection \<open>Constants\<close>

abbreviation (input) MQTT_MSG_TYPE_CONNECT :: u8 where "MQTT_MSG_TYPE_CONNECT \<equiv> 0x01"
abbreviation (input) MQTT_MSG_TYPE_CONNACK :: u8 where "MQTT_MSG_TYPE_CONNACK \<equiv> 0x02"
abbreviation (input) MQTT_MSG_TYPE_PUBLISH :: u8 where "MQTT_MSG_TYPE_PUBLISH \<equiv> 0x03"
abbreviation (input) MQTT_MSG_TYPE_PUBACK :: u8 where "MQTT_MSG_TYPE_PUBACK \<equiv> 0x04"
abbreviation (input) MQTT_MSG_TYPE_PUBREC :: u8 where "MQTT_MSG_TYPE_PUBREC \<equiv> 0x05"
abbreviation (input) MQTT_MSG_TYPE_PUBREL :: u8 where "MQTT_MSG_TYPE_PUBREL \<equiv> 0x06"
abbreviation (input) MQTT_MSG_TYPE_PUBCOMP :: u8 where "MQTT_MSG_TYPE_PUBCOMP \<equiv> 0x07"
abbreviation (input) MQTT_MSG_TYPE_SUBSCRIBE :: u8 where "MQTT_MSG_TYPE_SUBSCRIBE \<equiv> 0x08"
abbreviation (input) MQTT_MSG_TYPE_SUBACK :: u8 where "MQTT_MSG_TYPE_SUBACK \<equiv> 0x09"
abbreviation (input) MQTT_MSG_TYPE_UNSUBSCRIBE :: u8 where "MQTT_MSG_TYPE_UNSUBSCRIBE \<equiv> 0x0A"
abbreviation (input) MQTT_MSG_TYPE_UNSUBACK :: u8 where "MQTT_MSG_TYPE_UNSUBACK \<equiv> 0x0B"
abbreviation (input) MQTT_MSG_TYPE_PINGREQ :: u8 where "MQTT_MSG_TYPE_PINGREQ \<equiv> 0x0C"
abbreviation (input) MQTT_MSG_TYPE_PINGRESP :: u8 where "MQTT_MSG_TYPE_PINGRESP \<equiv> 0x0D"
abbreviation (input) MQTT_MSG_TYPE_DISCONNECT :: u8 where "MQTT_MSG_TYPE_DISCONNECT \<equiv> 0x0E"

abbreviation (input) MQTT_FLAG_CONNECT_USERNAME :: u8 where "MQTT_FLAG_CONNECT_USERNAME \<equiv> 0x80"
abbreviation (input) MQTT_FLAG_CONNECT_PASSWORD :: u8 where "MQTT_FLAG_CONNECT_PASSWORD \<equiv> 0x40"
abbreviation (input) MQTT_FLAG_CONNECT_WILL :: u8 where "MQTT_FLAG_CONNECT_WILL \<equiv> 0x04"
abbreviation (input) MQTT_FLAG_CONNECT_CLEAN_SESSION :: u8 where "MQTT_FLAG_CONNECT_CLEAN_SESSION \<equiv> 0x02"

abbreviation (input) MQTT_REQUEST_FLAG_IN_USE :: u8 where "MQTT_REQUEST_FLAG_IN_USE \<equiv> 0x01"
abbreviation (input) MQTT_REQUEST_FLAG_PENDING :: u8 where "MQTT_REQUEST_FLAG_PENDING \<equiv> 0x02"
abbreviation (input) MQTT_REQUEST_FLAG_SUBSCRIBE :: u8 where "MQTT_REQUEST_FLAG_SUBSCRIBE \<equiv> 0x04"
abbreviation (input) MQTT_REQUEST_FLAG_UNSUBSCRIBE :: u8 where "MQTT_REQUEST_FLAG_UNSUBSCRIBE \<equiv> 0x08"

abbreviation (input) GSM_MQTT_QOS_EXACTLY_ONCE :: u8 where "GSM_MQTT_QOS_EXACTLY_ONCE \<equiv> 0x02"

text \<open>
  \<^verbatim>\<open>GSM_CFG_CONN_POLL_INTERVAL\<close>, in milliseconds: the structure's comment on
  \<^verbatim>\<open>poll_time\<close> says it is increased every 500 ms.
\<close>

abbreviation (input) GSM_CFG_CONN_POLL_INTERVAL :: u32 where "GSM_CFG_CONN_POLL_INTERVAL \<equiv> 500"

definition MQTT_RCV_GET_PACKET_TYPE :: "u8 \<Rightarrow> u8" where
  "MQTT_RCV_GET_PACKET_TYPE d = drop_bit 4 d AND 0x0F"

definition MQTT_RCV_GET_PACKET_QOS :: "u8 \<Rightarrow> u8" where
  "MQTT_RCV_GET_PACKET_QOS d = drop_bit 1 d AND 0x03"

definition MQTT_RCV_GET_PACKET_DUP :: "u8 \<Rightarrow> u8" where
  "MQTT_RCV_GET_PACKET_DUP d = drop_bit 3 d AND 0x01"

text \<open>\<^verbatim>\<open>strlen\<close> cast by \<^verbatim>\<open>GSM_U16\<close>: the length of a string, cut to 16 bits.\<close>

definition strlen_u16 :: "u8 list \<Rightarrow> u16" where
  "strlen_u16 s = of_nat (length s)"

subsection \<open>The application callback and the transport\<close>

definition evt_fn :: "gsm_mqtt_client \<Rightarrow> gsm_mqtt_evt \<Rightarrow> gsm_mqtt_client" where
  "evt_fn c e = c\<lparr>events := events c @ [e]\<rparr>"

text \<open>
  Modelled from the spec: \<^verbatim>\<open>gsm_conn_send\<close> and \<^verbatim>\<open>gsm_conn_close\<close> of the
  transport.  A call answers with the next scripted result; a send that is
  accepted puts the block on the wire.  Without a connection handle both fail.
\<close>

definition gsm_conn_send :: "gsm_mqtt_client \<Rightarrow> u8 list \<Rightarrow> gsmr \<times> gsm_mqtt_client" where
  "gsm_conn_send c blk =
     (if \<not> conn c then (gsmERR, c)
      else case conn_send_res c of
          [] \<Rightarrow> (gsmOK, c\<lparr>conn_wire := conn_wire c @ [blk]\<rparr>)
        | r # rs \<Rightarrow>
            (r, if r = gsmOK then c\<lparr>conn_send_res := rs, conn_wire := conn_wire c @ [blk]\<rparr>
                else c\<lparr>conn_send_res := rs\<rparr>))"

definition gsm_conn_close :: "gsm_mqtt_client \<Rightarrow> gsmr \<times> gsm_mqtt_client" where
  "gsm_conn_close c =
     (if \<not> conn c then (gsmERR, c)
      else case conn_close_res c of
          [] \<Rightarrow> (gsmOK, c)
        | r # rs \<Rightarrow> (r, c\<lparr>conn_close_res := rs\<rparr>))"

subsection \<open>Packet ids and the request table\<close>

definition create_packet_id :: "gsm_mqtt_client \<Rightarrow> u16 \<times> gsm_mqtt_client" where
  "create_packet_id c =
     (let c1 = c\<lparr>last_packet_id := last_packet_id c + 1\<rparr>;
          c2 = (if last_packet_id c1 = 0 then c1\<lparr>last_packet_id := 1\<rparr> else c1)
      in (last_packet_id c2, c2))"

text \<open>The index of the first element that satisfies the test: the \<^verbatim>\<open>for\<close> loops
  over the request table that stop at the first hit.\<close>

primrec find_first :: "('a \<Rightarrow> bool) \<Rightarrow> 'a list \<Rightarrow> nat option" where
  "find_first P [] = None"
| "find_first P (x # xs) = (if P x then Some 0 else map_option Suc (find_first P xs))"

text \<open>A request is named by its index in the table; \<^verbatim>\<open>NULL\<close> is \<open>None\<close>.\<close>

definition request_create ::
    "gsm_mqtt_client \<Rightarrow> u16 \<Rightarrow> nat \<Rightarrow> nat option \<times> gsm_mqtt_client" where
  "request_create c pkt_id a =
     (case find_first (\<lambda>r. status r AND MQTT_REQUEST_FLAG_IN_USE = 0) (requests c) of
        None \<Rightarrow> (None, c)
      | Some i \<Rightarrow>
          (Some i, c\<lparr>requests := (requests c)
             [i := (requests c ! i)\<lparr>status := MQTT_REQUEST_FLAG_IN_USE, packet_id := pkt_id, arg := a\<rparr>]\<rparr>))"

definition request_delete :: "gsm_mqtt_client \<Rightarrow> nat \<Rightarrow> gsm_mqtt_client" where
  "request_delete c i = c\<lparr>requests := (requests c)[i := (requests c ! i)\<lparr>status := 0\<rparr>]\<rparr>"

definition request_set_pending :: "gsm_mqtt_client \<Rightarrow> nat \<Rightarrow> gsm_mqtt_client" where
  "request_set_pending c i =
     c\<lparr>requests := (requests c)
        [i := (requests c ! i)\<lparr>status := status (requests c ! i) OR MQTT_REQUEST_FLAG_PENDING,
                               timeout_start_time := sys_now c\<rparr>]\<rparr>"

text \<open>\<^verbatim>\<open>pkt_id\<close> is an \<^verbatim>\<open>int32_t\<close>; \<open>-1\<close> asks for the first pending request.\<close>

definition request_get_pending :: "gsm_mqtt_client \<Rightarrow> int \<Rightarrow> nat option" where
  "request_get_pending c pkt_id =
     find_first (\<lambda>r. status r AND MQTT_REQUEST_FLAG_PENDING \<noteq> 0
                     \<and> (pkt_id = -1 \<or> packet_id r = of_int pkt_id)) (requests c)"

definition request_send_err_callback ::
    "gsm_mqtt_client \<Rightarrow> u8 \<Rightarrow> nat \<Rightarrow> gsm_mqtt_client" where
  "request_send_err_callback c st a =
     (if st AND MQTT_REQUEST_FLAG_SUBSCRIBE \<noteq> 0 then evt_fn c (GSM_MQTT_EVT_SUBSCRIBE a gsmERR)
      else if st AND MQTT_REQUEST_FLAG_UNSUBSCRIBE \<noteq> 0 then evt_fn c (GSM_MQTT_EVT_UNSUBSCRIBE a gsmERR)
      else evt_fn c (GSM_MQTT_EVT_PUBLISH a gsmERR))"

subsection \<open>Writing to the output buffer\<close>

definition write_u8 :: "gsm_mqtt_client \<Rightarrow> u8 \<Rightarrow> gsm_mqtt_client" where
  "write_u8 c num = c\<lparr>tx_buff := gsm_buff_write (tx_buff c) [num]\<rparr>"

definition write_u16 :: "gsm_mqtt_client \<Rightarrow> u16 \<Rightarrow> gsm_mqtt_client" where
  "write_u16 c num = write_u8 (write_u8 c (ucast (drop_bit 8 num))) (ucast (num AND 0xFF))"

definition write_data :: "gsm_mqtt_client \<Rightarrow> u8 list \<Rightarrow> gsm_mqtt_client" where
  "write_data c bs = c\<lparr>tx_buff := gsm_buff_write (tx_buff c) bs\<rparr>"

text \<open>\<^verbatim>\<open>write_string(client, str, len)\<close> writes the first \<open>len\<close> bytes of the string.\<close>

definition write_string :: "gsm_mqtt_client \<Rightarrow> u8 list \<Rightarrow> u16 \<Rightarrow> gsm_mqtt_client" where
  "write_string c str len = write_data (write_u16 c len) (take (unat len) str)"

lemma drop_bit7_less: "drop_bit 7 (r :: u16) \<noteq> 0 \<Longrightarrow> unat (drop_bit 7 r) < unat r"
proof -
  assume nz: "drop_bit 7 r \<noteq> 0"
  have eq: "unat (drop_bit 7 r) = unat r div 128"
    by (simp add: unat_drop_bit_eq) (simp add: drop_bit_eq_div)
  from nz have "unat (drop_bit 7 r) \<noteq> 0"
    by (simp only: unat_eq_0 not_False_eq_True)
  with eq have "0 < unat r div 128" by simp
  then have "unat r div 128 < unat r" by (simp add: div_less_dividend)
  with eq show ?thesis by simp
qed

text \<open>
  The bytes the \<^verbatim>\<open>do ... while (rem_len)\<close> loop of \<open>write_fixed_header\<close> writes:
  seven bits of the remaining length per byte, least significant first, bit 7
  telling that more follow.
\<close>

function rem_len_bytes :: "u16 \<Rightarrow> u8 list" where
  "rem_len_bytes rem_len =
     (let b = (ucast (rem_len AND 0x7F) :: u8) OR (if rem_len > 0x7F then 0x80 else 0);
          r = drop_bit 7 rem_len
      in if r \<noteq> 0 then b # rem_len_bytes r else [b])"
  by pat_completeness auto
termination
  by (relation "measure unat") (auto simp: drop_bit7_less)

declare rem_len_bytes.simps [simp del]

definition fixed_header_byte :: "u8 \<Rightarrow> u8 \<Rightarrow> u8 \<Rightarrow> u8 \<Rightarrow> u8" where
  "fixed_header_byte type dup qos retain =
     push_bit 4 type OR push_bit 3 (if dup \<noteq> 0 then 1 else 0)
       OR push_bit 1 (qos AND 0x03) OR (if retain \<noteq> 0 then 1 else 0)"

definition write_fixed_header ::
    "gsm_mqtt_client \<Rightarrow> u8 \<Rightarrow> u8 \<Rightarrow> u8 \<Rightarrow> u8 \<Rightarrow> u16 \<Rightarrow> gsm_mqtt_client" where
  "write_fixed_header c type dup qos retain rem_len =
     foldl write_u8 (write_u8 c (fixed_header_byte type dup qos retain)) (rem_len_bytes rem_len)"

text \<open>The loop of \<open>output_check_enough_memory\<close> that counts the length bytes.\<close>

function count_rem_len_bytes :: "u16 \<Rightarrow> u16 \<Rightarrow> u16" where
  "count_rem_len_bytes total_len rem_len =
     (let t = total_len + 1;
          r = drop_bit 7 rem_len
      in if r \<noteq> 0 then count_rem_len_bytes t r else t)"
  by pat_completeness auto
termination
  by (relation "measure (\<lambda>(t, r). unat r)") (auto simp: drop_bit7_less)

declare count_rem_len_bytes.simps [simp del]

text \<open>The free space is cast by \<^verbatim>\<open>GSM_U16\<close> before it is compared.\<close>

definition output_check_enough_memory :: "gsm_mqtt_client \<Rightarrow> u16 \<Rightarrow> u16" where
  "output_check_enough_memory c rem_len =
     (let total_len = count_rem_len_bytes (rem_len + 1) rem_len
      in if (of_nat (gsm_buff_get_free (tx_buff c)) :: u16) \<ge> total_len then total_len else 0)"

definition send_data :: "gsm_mqtt_client \<Rightarrow> gsm_mqtt_client" where
  "send_data c =
     (if is_sending c then c
      else let len = gsm_buff_get_linear_block_read_length (tx_buff c)
           in if len > 0 then
                (case gsm_conn_send c (gsm_buff_get_linear_block_read_address (tx_buff c)) of
                   (res, c1) \<Rightarrow>
                     if res = gsmOK
                     then c1\<lparr>written_total := written_total c1 + of_nat len, is_sending := True\<rparr>
                     else c1)
              else c\<lparr>tx_buff := gsm_buff_reset (tx_buff c)\<rparr>)"

definition write_ack_rec_rel_resp ::
    "gsm_mqtt_client \<Rightarrow> u8 \<Rightarrow> u16 \<Rightarrow> u8 \<Rightarrow> u8 \<times> gsm_mqtt_client" where
  "write_ack_rec_rel_resp c msg_type pkt_id qos =
     (if output_check_enough_memory c 2 \<noteq> 0
      then (1, send_data (write_u16 (write_fixed_header c msg_type 0 qos 0 2) pkt_id))
      else (0, c))"

definition mqtt_close :: "gsm_mqtt_client \<Rightarrow> gsmr \<times> gsm_mqtt_client" where
  "mqtt_close c =
     (if conn_state c \<noteq> GSM_MQTT_CONN_DISCONNECTED \<and> conn_state c \<noteq> GSM_MQTT_CONN_DISCONNECTING
      then (case gsm_conn_close c of
              (res, c1) \<Rightarrow> (res, if res = gsmOK then c1\<lparr>conn_state := GSM_MQTT_CONN_DISCONNECTING\<rparr> else c1))
      else (gsmERR, c))"

subsection \<open>Subscribe and unsubscribe\<close>

text \<open>
  \<open>rem_len\<close> is a \<^verbatim>\<open>uint32_t\<close>; \<open>output_check_enough_memory\<close> and
  \<open>write_fixed_header\<close> take a \<^verbatim>\<open>uint16_t\<close>, so the call converts it (\<open>ucast\<close>).
\<close>

definition sub_unsub ::
    "gsm_mqtt_client \<Rightarrow> u8 list \<Rightarrow> u8 \<Rightarrow> nat \<Rightarrow> bool \<Rightarrow> u8 \<times> gsm_mqtt_client" where
  "sub_unsub c topic qos a sub =
     (let len_topic = strlen_u16 topic in
      if len_topic = 0 then (0, c)
      else
        let rem_len = (2 + ucast len_topic + 2 + (if sub then 1 else 0) :: u32) in
        if conn_state c = GSM_MQTT_CONNECTED \<and> output_check_enough_memory c (ucast rem_len) \<noteq> 0
        then (case create_packet_id c of
                (pkt_id, c1) \<Rightarrow>
                  (case request_create c1 pkt_id a of
                     (None, c2) \<Rightarrow> (0, c2)
                   | (Some i, c2) \<Rightarrow>
                       let c3 = write_fixed_header c2
                                  (if sub then MQTT_MSG_TYPE_SUBSCRIBE else MQTT_MSG_TYPE_UNSUBSCRIBE)
                                  0 1 0 (ucast rem_len);
                           c4 = write_u16 c3 pkt_id;
                           c5 = write_string c4 topic len_topic;
                           c6 = (if sub then write_u8 c5 (min qos GSM_MQTT_QOS_EXACTLY_ONCE) else c5);
                           c7 = c6\<lparr>requests := (requests c6)
                                  [i := (requests c6 ! i)\<lparr>status := status (requests c6 ! i) OR
                                     (if sub then MQTT_REQUEST_FLAG_SUBSCRIBE
                                      else MQTT_REQUEST_FLAG_UNSUBSCRIBE)\<rparr>]\<rparr>;
                           c8 = request_set_pending c7 i
                       in (1, send_data c8)))
        else (0, c))"

subsection \<open>Processing a received message\<close>

text \<open>
  \<open>mqtt_process_incoming_message\<close> reads the message through the pointer
  \<^verbatim>\<open>client->rx_buff\<close>.  In the model it gets the memory behind that pointer as a
  list \<open>rx\<close>.  The C indexes it without a test; a read at or after the end of \<open>rx\<close>
  has no defined result, and the function is \<open>None\<close> then.
\<close>

definition rx_at :: "u8 list \<Rightarrow> nat \<Rightarrow> u8 option" where
  "rx_at rx i = (if i < length rx then Some (rx ! i) else None)"

text \<open>\<^verbatim>\<open>(rx[i] << 8) | rx[i + 1]\<close>\<close>

definition rx_u16 :: "u8 list \<Rightarrow> nat \<Rightarrow> u16 option" where
  "rx_u16 rx i =
     (case rx_at rx i of
        None \<Rightarrow> None
      | Some hi \<Rightarrow>
          (case rx_at rx (i + 1) of
             None \<Rightarrow> None
           | Some lo \<Rightarrow> Some (push_bit 8 (ucast hi) OR ucast lo)))"

text \<open>\<^verbatim>\<open>case MQTT_MSG_TYPE_CONNACK\<close>\<close>

definition process_connack :: "gsm_mqtt_client \<Rightarrow> u8 list \<Rightarrow> gsm_mqtt_client option" where
  "process_connack c rx =
     (case rx_at rx 1 of
        None \<Rightarrow> None
      | Some err \<Rightarrow>
          Some (if conn_state c = GSM_MQTT_CONNECTING
                then evt_fn (if GSM_MQTT_CONN_STATUS err = GSM_MQTT_CONN_STATUS_ACCEPTED
                             then c\<lparr>conn_state := GSM_MQTT_CONNECTED\<rparr> else c)
                       (GSM_MQTT_EVT_CONNECT (GSM_MQTT_CONN_STATUS err))
                else c))"

text \<open>
  \<^verbatim>\<open>case MQTT_MSG_TYPE_PUBLISH\<close>.  The code reads \<^verbatim>\<open>rx_buff[0]\<close> and
  \<^verbatim>\<open>rx_buff[1]\<close> for the topic length and, when the quality of service is not
  0, the two bytes of the packet id behind the topic.  \<open>data\<close> is the offset of
  the payload from \<open>rx\<close>; \<open>data_len\<close> is a \<^verbatim>\<open>uint16_t\<close>.  Topic and payload
  are not read: the event gets their addresses and lengths.  The event of the
  model holds the bytes of \<open>rx\<close> that lie under them.
\<close>

definition process_publish :: "gsm_mqtt_client \<Rightarrow> u8 list \<Rightarrow> gsm_mqtt_client option" where
  "process_publish c rx =
     (let qos = MQTT_RCV_GET_PACKET_QOS (msg_hdr_byte c);
          dup = MQTT_RCV_GET_PACKET_DUP (msg_hdr_byte c)
      in case rx_u16 rx 0 of
           None \<Rightarrow> None
         | Some topic_len \<Rightarrow>
             (case (if qos > 0
                    then map_option (\<lambda>p. (p, 2 + unat topic_len + 2)) (rx_u16 rx (2 + unat topic_len))
                    else Some (0, 2 + unat topic_len)) of
                None \<Rightarrow> None
              | Some (pkt_id, data) \<Rightarrow>
                  let data_len = (ucast (msg_rem_len c - of_nat data) :: u16);
                      topic = take (unat topic_len) (drop 2 rx);
                      payload = take (unat data_len) (drop data rx);
                      c1 = (if qos > 0
                            then snd (write_ack_rec_rel_resp c
                                   (if qos = 1 then MQTT_MSG_TYPE_PUBACK
                                    else MQTT_MSG_TYPE_PUBREC) pkt_id qos)
                            else c)
                  in Some (evt_fn c1 (GSM_MQTT_EVT_PUBLISH_RECV topic payload dup qos))))"

text \<open>The common \<^verbatim>\<open>case\<close> of SUBACK, UNSUBACK, PUBREC, PUBREL, PUBACK and PUBCOMP.\<close>

definition process_ack :: "gsm_mqtt_client \<Rightarrow> u8 \<Rightarrow> u8 list \<Rightarrow> gsm_mqtt_client option" where
  "process_ack c msg_type rx =
     (case rx_u16 rx 0 of
        None \<Rightarrow> None
      | Some pkt_id \<Rightarrow>
          if msg_type = MQTT_MSG_TYPE_PUBREC
          then Some (snd (write_ack_rec_rel_resp c MQTT_MSG_TYPE_PUBREL pkt_id 1))
          else if msg_type = MQTT_MSG_TYPE_PUBREL
          then Some (snd (write_ack_rec_rel_resp c MQTT_MSG_TYPE_PUBCOMP pkt_id 0))
          else if msg_type = MQTT_MSG_TYPE_SUBACK \<or> msg_type = MQTT_MSG_TYPE_UNSUBACK
                  \<or> msg_type = MQTT_MSG_TYPE_PUBACK \<or> msg_type = MQTT_MSG_TYPE_PUBCOMP
          then (case request_get_pending c (uint pkt_id) of
                  None \<Rightarrow> Some c
                | Some i \<Rightarrow>
                    if msg_type = MQTT_MSG_TYPE_SUBACK \<or> msg_type = MQTT_MSG_TYPE_UNSUBACK
                    then (case rx_at rx 2 of
                            None \<Rightarrow> None
                          | Some rc \<Rightarrow>
                              Some (request_delete
                                (evt_fn c ((if msg_type = MQTT_MSG_TYPE_SUBACK
                                            then GSM_MQTT_EVT_SUBSCRIBE else GSM_MQTT_EVT_UNSUBSCRIBE)
                                   (arg (requests c ! i)) (if rc < 3 then gsmOK else gsmERR))) i))
                    else Some (request_delete
                                (evt_fn c (GSM_MQTT_EVT_PUBLISH (arg (requests c ! i)) gsmOK)) i))
          else Some c)"

text \<open>
  The \<^verbatim>\<open>switch\<close> on the packet type.  The first step records the call in
  \<open>dispatched\<close>.  The C function's return value is not used by its callers.
\<close>

definition mqtt_process_incoming_message ::
    "gsm_mqtt_client \<Rightarrow> u8 list \<Rightarrow> gsm_mqtt_client option" where
  "mqtt_process_incoming_message c0 rx =
     (let c = c0\<lparr>dispatched := dispatched c0 @
                  [(msg_hdr_byte c0, msg_rem_len c0, take (unat (msg_rem_len c0)) rx)]\<rparr>;
          msg_type = MQTT_RCV_GET_PACKET_TYPE (msg_hdr_byte c)
      in if msg_type = MQTT_MSG_TYPE_CONNACK then process_connack c rx
         else if msg_type = MQTT_MSG_TYPE_PUBLISH then process_publish c rx
         else if msg_type = MQTT_MSG_TYPE_PINGRESP then Some (evt_fn c GSM_MQTT_EVT_KEEP_ALIVE)
         else if msg_type = MQTT_MSG_TYPE_SUBACK \<or> msg_type = MQTT_MSG_TYPE_UNSUBACK
                 \<or> msg_type = MQTT_MSG_TYPE_PUBREC \<or> msg_type = MQTT_MSG_TYPE_PUBREL
                 \<or> msg_type = MQTT_MSG_TYPE_PUBACK \<or> msg_type = MQTT_MSG_TYPE_PUBCOMP
         then process_ack c msg_type rx
         else Some c)"

subsection \<open>The streaming parser\<close>

text \<open>
  The body of the \<^verbatim>\<open>for\<close> loop of \<open>mqtt_parse_incoming\<close> over one linear block
  of the packet buffer.  The block is the list of the bytes from \<^verbatim>\<open>d[idx]\<close> on, so
  \<^verbatim>\<open>buff_len - idx\<close> is its length and \<^verbatim>\<open>idx += msg_rem_len\<close> drops that many
  bytes.  When the whole message is in the block the C points \<^verbatim>\<open>rx_buff\<close> at
  \<^verbatim>\<open>d[idx + 1]\<close>: the message is processed on the rest of the block.  Otherwise it
  is processed on the rx buffer of the client.
\<close>

text \<open>
  The first statement of \<^verbatim>\<open>case MQTT_PARSER_STATE_CALC_REM_LEN\<close>, the decoder of
  the remaining length:
  \<^verbatim>\<open>msg_rem_len |= (ch & 0x7F) << (7 * msg_rem_len_mult++)\<close>.
\<close>

definition calc_rem_len :: "gsm_mqtt_client \<Rightarrow> u8 \<Rightarrow> gsm_mqtt_client" where
  "calc_rem_len c ch =
     c\<lparr>msg_rem_len := msg_rem_len c OR
                        push_bit (7 * unat (msg_rem_len_mult c)) (ucast (ch AND 0x7F)),
       msg_rem_len_mult := msg_rem_len_mult c + 1\<rparr>"

fun mqtt_parse_block :: "gsm_mqtt_client \<Rightarrow> u8 list \<Rightarrow> gsm_mqtt_client option" where
  "mqtt_parse_block c [] = Some c"
| "mqtt_parse_block c (ch # d) =
     (case parser_state c of
        MQTT_PARSER_STATE_INIT \<Rightarrow>
          mqtt_parse_block
            (c\<lparr>msg_hdr_byte := ch, msg_rem_len := 0, msg_rem_len_mult := 0, msg_curr_pos := 0,
               parser_state := MQTT_PARSER_STATE_CALC_REM_LEN\<rparr>) d
      | MQTT_PARSER_STATE_CALC_REM_LEN \<Rightarrow>
          (let c1 = calc_rem_len c ch
           in if ch AND 0x80 = 0 then
                (if msg_rem_len c1 > 0 then
                   (if length (ch # d) > unat (msg_rem_len c1) then
                      (case mqtt_process_incoming_message c1 d of
                         None \<Rightarrow> None
                       | Some c2 \<Rightarrow>
                           mqtt_parse_block (c2\<lparr>parser_state := MQTT_PARSER_STATE_INIT\<rparr>)
                             (drop (unat (msg_rem_len c2)) d))
                    else mqtt_parse_block (c1\<lparr>parser_state := MQTT_PARSER_STATE_READ_REM\<rparr>) d)
                 else
                   (case mqtt_process_incoming_message c1 (rx_buff c1) of
                      None \<Rightarrow> None
                    | Some c2 \<Rightarrow> mqtt_parse_block (c2\<lparr>parser_state := MQTT_PARSER_STATE_INIT\<rparr>) d))
              else mqtt_parse_block c1 d)
      | MQTT_PARSER_STATE_READ_REM \<Rightarrow>
          (let c1 = (if unat (msg_curr_pos c) < length (rx_buff c)
                     then c\<lparr>rx_buff := (rx_buff c)[unat (msg_curr_pos c) := ch]\<rparr> else c);
               c2 = c1\<lparr>msg_curr_pos := msg_curr_pos c1 + 1\<rparr>
           in if msg_curr_pos c2 = msg_rem_len c2 then
                (if unat (msg_curr_pos c2) \<le> length (rx_buff c2) then
                   (case mqtt_process_incoming_message c2 (rx_buff c2) of
                      None \<Rightarrow> None
                    | Some c3 \<Rightarrow> mqtt_parse_block (c3\<lparr>parser_state := MQTT_PARSER_STATE_INIT\<rparr>) d)
                 else mqtt_parse_block (c2\<lparr>parser_state := MQTT_PARSER_STATE_INIT\<rparr>) d)
              else mqtt_parse_block c2 d))"

text \<open>
  Modelled from the spec: a packet buffer is the list of its linear blocks, which
  \<^verbatim>\<open>gsm_pbuf_get_linear_addr\<close> hands out one after the other.  The
  \<^verbatim>\<open>do ... while (buff_len > 0)\<close> loop ends after an empty block or after the last.
\<close>

fun mqtt_parse_incoming :: "gsm_mqtt_client \<Rightarrow> u8 list list \<Rightarrow> gsm_mqtt_client option" where
  "mqtt_parse_incoming c [] = Some c"
| "mqtt_parse_incoming c (blk # pbuf) =
     (case mqtt_parse_block c blk of
        None \<Rightarrow> None
      | Some c1 \<Rightarrow> if length blk > 0 then mqtt_parse_incoming c1 pbuf else Some c1)"

subsection \<open>Connection callbacks\<close>

definition mqtt_connected_cb :: "gsm_mqtt_client \<Rightarrow> gsm_mqtt_client" where
  "mqtt_connected_cb c =
     (let flags0 = MQTT_FLAG_CONNECT_CLEAN_SESSION;
          len_id = strlen_u16 (client_id (info c));
          rem_len0 = (10 :: u16) + (len_id + 2);
          will = (case will_topic (info c) of
                    None \<Rightarrow> None
                  | Some t \<Rightarrow> (case will_message (info c) of None \<Rightarrow> None | Some m \<Rightarrow> Some (t, m)));
          flags1 = (if will \<noteq> None
                    then flags0 OR MQTT_FLAG_CONNECT_WILL OR push_bit 3 (min (will_qos (info c)) 2)
                    else flags0);
          len_will_topic = (case will of None \<Rightarrow> 0 | Some (t, m) \<Rightarrow> strlen_u16 t);
          len_will_message = (case will of None \<Rightarrow> 0 | Some (t, m) \<Rightarrow> strlen_u16 m);
          rem_len1 = (if will \<noteq> None
                      then rem_len0 + (len_will_topic + 2) + (len_will_message + 2) else rem_len0);
          flags2 = (if user (info c) \<noteq> None then flags1 OR MQTT_FLAG_CONNECT_USERNAME else flags1);
          len_user = (case user (info c) of None \<Rightarrow> 0 | Some u \<Rightarrow> strlen_u16 u);
          rem_len2 = (if user (info c) \<noteq> None then rem_len1 + (len_user + 2) else rem_len1);
          flags = (if pass (info c) \<noteq> None then flags2 OR MQTT_FLAG_CONNECT_PASSWORD else flags2);
          len_pass = (case pass (info c) of None \<Rightarrow> 0 | Some pw \<Rightarrow> strlen_u16 pw);
          rem_len = (if pass (info c) \<noteq> None then rem_len2 + (len_pass + 2) else rem_len2)
      in if output_check_enough_memory c rem_len = 0 then c
         else
           let c1 = write_fixed_header c MQTT_MSG_TYPE_CONNECT 0 0 0 rem_len;
               c2 = write_string c1 [0x4D, 0x51, 0x54, 0x54] 4;
               c3 = write_u8 c2 4;
               c4 = write_u8 c3 flags;
               c5 = write_u16 c4 (keep_alive (info c));
               c6 = write_string c5 (client_id (info c)) len_id;
               c7 = (if flags AND MQTT_FLAG_CONNECT_WILL \<noteq> 0
                     then (case will of
                             None \<Rightarrow> c6
                           | Some (t, m) \<Rightarrow>
                               write_string (write_string c6 t len_will_topic) m len_will_message)
                     else c6);
               c8 = (if flags AND MQTT_FLAG_CONNECT_USERNAME \<noteq> 0
                     then (case user (info c) of None \<Rightarrow> c7 | Some u \<Rightarrow> write_string c7 u len_user)
                     else c7);
               c9 = (if flags AND MQTT_FLAG_CONNECT_PASSWORD \<noteq> 0
                     then (case pass (info c) of None \<Rightarrow> c8 | Some pw \<Rightarrow> write_string c8 pw len_pass)
                     else c8)
           in send_data (c9\<lparr>parser_state := MQTT_PARSER_STATE_INIT, poll_time := 0,
                             conn_state := GSM_MQTT_CONNECTING\<rparr>))"

text \<open>\<^verbatim>\<open>gsm_conn_recved\<close> only tells the stack that the data was taken.\<close>

definition mqtt_data_recv_cb :: "gsm_mqtt_client \<Rightarrow> u8 list list \<Rightarrow> gsm_mqtt_client option" where
  "mqtt_data_recv_cb c pbuf = mqtt_parse_incoming (c\<lparr>poll_time := 0\<rparr>) pbuf"

definition pending_count :: "gsm_mqtt_client \<Rightarrow> nat" where
  "pending_count c =
     length (filter (\<lambda>r. status r AND MQTT_REQUEST_FLAG_PENDING \<noteq> 0) (requests c))"

lemma find_first_Some: "find_first P xs = Some i \<Longrightarrow> i < length xs \<and> P (xs ! i)"
proof (induction xs arbitrary: i)
  case Nil
  then show ?case by simp
next
  case (Cons x xs)
  show ?case
  proof (cases "P x")
    case True
    with Cons.prems show ?thesis by simp
  next
    case False
    with Cons.prems obtain j where j: "find_first P xs = Some j" and i: "i = Suc j"
      by auto
    from Cons.IH [OF j] i show ?thesis by simp
  qed
qed

lemma filter_update_less:
  "i < length xs \<Longrightarrow> P (xs ! i) \<Longrightarrow> \<not> P y \<Longrightarrow>
   length (filter P (xs[i := y])) < length (filter P xs)"
proof (induction xs arbitrary: i)
  case Nil
  then show ?case by simp
next
  case (Cons x xs)
  show ?case
  proof (cases i)
    case 0
    with Cons.prems show ?thesis by (simp add: less_Suc_eq_le)
  next
    case (Suc j)
    with Cons.prems have "length (filter P (xs[j := y])) < length (filter P xs)"
      by (intro Cons.IH) simp_all
    with Suc show ?thesis by simp
  qed
qed

lemma request_delete_pending_count:
  assumes "request_get_pending c pkt_id = Some i"
  shows "pending_count (request_delete c i) < pending_count c"
proof -
  from assms have "i < length (requests c)"
    and "status (requests c ! i) AND MQTT_REQUEST_FLAG_PENDING \<noteq> 0"
    by (auto simp: request_get_pending_def dest: find_first_Some)
  then show ?thesis
    by (simp add: pending_count_def request_delete_def filter_update_less)
qed

text \<open>
  The \<^verbatim>\<open>while\<close> loop of \<open>mqtt_data_sent_cb\<close> over the pending requests with
  packet id 0, the publishes without quality of service.
\<close>

function sent_requests_loop :: "gsm_mqtt_client \<Rightarrow> gsm_mqtt_client" where
  "sent_requests_loop c =
     (case request_get_pending c 0 of
        None \<Rightarrow> c
      | Some i \<Rightarrow>
          if sent_total c \<ge> expected_sent_len (requests c ! i)
          then sent_requests_loop
                 (evt_fn (request_delete c i) (GSM_MQTT_EVT_PUBLISH (arg (requests c ! i)) gsmOK))
          else c)"
  by pat_completeness auto
termination
  by (relation "measure pending_count")
     (auto simp: evt_fn_def pending_count_def [of "_\<lparr>events := _\<rparr>"]
           dest!: request_delete_pending_count simp: pending_count_def)

declare sent_requests_loop.simps [simp del]

definition mqtt_data_sent_cb :: "gsm_mqtt_client \<Rightarrow> nat \<Rightarrow> bool \<Rightarrow> gsm_mqtt_client" where
  "mqtt_data_sent_cb c sent_len successful =
     (let c1 = c\<lparr>is_sending := False, sent_total := sent_total c + of_nat sent_len, poll_time := 0\<rparr>
      in if \<not> successful then snd (mqtt_close c1)
         else send_data (sent_requests_loop (c1\<lparr>tx_buff := gsm_buff_skip (tx_buff c1) sent_len\<rparr>)))"

definition mqtt_poll_cb :: "gsm_mqtt_client \<Rightarrow> gsm_mqtt_client" where
  "mqtt_poll_cb c =
     (let c1 = c\<lparr>poll_time := poll_time c + 1\<rparr>
      in if conn_state c1 = GSM_MQTT_CONN_DISCONNECTING then c1
         else if keep_alive (info c1) \<noteq> 0
                 \<and> poll_time c1 * GSM_CFG_CONN_POLL_INTERVAL
                      \<ge> (ucast (keep_alive (info c1)) :: u32) * 1000
         then (if output_check_enough_memory c1 0 \<noteq> 0
               then (send_data (write_fixed_header c1 MQTT_MSG_TYPE_PINGREQ 0 0 0 0))\<lparr>poll_time := 0\<rparr>
               else c1)
         else c1)"

text \<open>The \<^verbatim>\<open>while\<close> loop of \<open>mqtt_closed_cb\<close> over all pending requests.\<close>

function closed_requests_loop :: "gsm_mqtt_client \<Rightarrow> gsm_mqtt_client" where
  "closed_requests_loop c =
     (case request_get_pending c (- 1) of
        None \<Rightarrow> c
      | Some i \<Rightarrow>
          closed_requests_loop
            (request_send_err_callback (request_delete c i)
               (status (requests c ! i)) (arg (requests c ! i))))"
  by pat_completeness auto
termination
  by (relation "measure pending_count")
     (auto simp: request_send_err_callback_def evt_fn_def pending_count_def [of "_\<lparr>events := _\<rparr>"]
           dest!: request_delete_pending_count simp: pending_count_def)

declare closed_requests_loop.simps [simp del]

text \<open>A request of the table after \<^verbatim>\<open>GSM_MEMSET(client->requests, 0x00, ...)\<close>.\<close>

definition zero_request :: gsm_mqtt_request where
  "zero_request = \<lparr>status = 0, packet_id = 0, arg = 0, expected_sent_len = 0, timeout_start_time = 0\<rparr>"

definition mqtt_closed_cb :: "gsm_mqtt_client \<Rightarrow> bool \<Rightarrow> bool \<Rightarrow> gsm_mqtt_client" where
  "mqtt_closed_cb c res forced =
     (let state = conn_state c;
          c1 = c\<lparr>conn_state := GSM_MQTT_CONN_DISCONNECTED\<rparr>;
          c2 = evt_fn c1 (GSM_MQTT_EVT_DISCONNECT
                 (state = GSM_MQTT_CONNECTED \<or> state = GSM_MQTT_CONN_DISCONNECTING));
          c3 = c2\<lparr>conn := False\<rparr>;
          c4 = closed_requests_loop c3;
          c5 = c4\<lparr>requests := map (\<lambda>r. zero_request) (requests c4)\<rparr>;
          c6 = c5\<lparr>is_sending := False, sent_total := 0, written_total := 0\<rparr>;
          c7 = c6\<lparr>parser_state := MQTT_PARSER_STATE_INIT\<rparr>
      in c7\<lparr>tx_buff := gsm_buff_reset (tx_buff c7)\<rparr>)"

text \<open>The events of the connection that \<open>mqtt_conn_cb\<close> handles.\<close>

datatype gsm_evt =
    GSM_EVT_CONN_ERROR
  | GSM_EVT_CONN_ACTIVE
  | GSM_EVT_CONN_RECV "u8 list list"
  | GSM_EVT_CONN_SEND nat bool
  | GSM_EVT_CONN_POLL
  | GSM_EVT_CONN_CLOSE bool bool

definition mqtt_conn_cb :: "gsm_mqtt_client \<Rightarrow> gsm_evt \<Rightarrow> gsm_mqtt_client option" where
  "mqtt_conn_cb c evt =
     (case evt of
        GSM_EVT_CONN_ERROR \<Rightarrow>
          Some (evt_fn (c\<lparr>conn_state := GSM_MQTT_CONN_DISCONNECTED\<rparr>)
                  (GSM_MQTT_EVT_CONNECT GSM_MQTT_CONN_STATUS_TCP_FAILED))
      | GSM_EVT_CONN_ACTIVE \<Rightarrow> Some (mqtt_connected_cb c)
      | GSM_EVT_CONN_RECV pbuf \<Rightarrow> mqtt_data_recv_cb c pbuf
      | GSM_EVT_CONN_SEND len ok \<Rightarrow> Some (mqtt_data_sent_cb c len ok)
      | GSM_EVT_CONN_POLL \<Rightarrow> Some (mqtt_poll_cb c)
      | GSM_EVT_CONN_CLOSE res forced \<Rightarrow> Some (mqtt_closed_cb c res forced))"

subsection \<open>The application interface\<close>

text \<open>
  \<open>gsm_mqtt_client_new\<close>, with \<^verbatim>\<open>GSM_CFG_MQTT_MAX_REQUESTS\<close> as its first argument;
  the allocations succeed.
\<close>

definition gsm_mqtt_client_new :: "nat \<Rightarrow> nat \<Rightarrow> nat \<Rightarrow> gsm_mqtt_client" where
  "gsm_mqtt_client_new max_requests tx_buff_len rx_buff_len =
     \<lparr>conn = False,
      info = \<lparr>client_id = [], user = None, pass = None, keep_alive = 0,
              will_topic = None, will_message = None, will_qos = 0\<rparr>,
      conn_state = GSM_MQTT_CONN_DISCONNECTED, poll_time = 0, events = [],
      tx_buff = gsm_buff_init tx_buff_len, is_sending = False, sent_total = 0,
      written_total = 0, last_packet_id = 0,
      requests = replicate max_requests zero_request,
      rx_buff = replicate rx_buff_len 0,
      parser_state = MQTT_PARSER_STATE_INIT, msg_hdr_byte = 0, msg_rem_len = 0,
      msg_rem_len_mult = 0, msg_curr_pos = 0, user_arg = 0,
      conn_send_res = [], conn_close_res = [], conn_wire = [], sys_now = 0, dispatched = []\<rparr>"

text \<open>
  \<open>gsm_mqtt_client_connect\<close>: \<open>attached\<close> is what \<^verbatim>\<open>gsm_network_is_attached\<close>
  returns and \<open>start_res\<close> what \<^verbatim>\<open>gsm_conn_start\<close> returns; host and port only
  go to the transport.
\<close>

definition gsm_mqtt_client_connect ::
    "gsm_mqtt_client \<Rightarrow> bool \<Rightarrow> gsmr \<Rightarrow> gsm_mqtt_client_info \<Rightarrow> gsmr \<times> gsm_mqtt_client" where
  "gsm_mqtt_client_connect c attached start_res ci =
     (if attached \<and> conn_state c = GSM_MQTT_CONN_DISCONNECTED
      then (start_res,
            if start_res = gsmOK
            then c\<lparr>info := ci, conn := True, conn_state := GSM_MQTT_CONN_CONNECTING\<rparr>
            else c\<lparr>info := ci\<rparr>)
      else (gsmERR, c))"

definition gsm_mqtt_client_disconnect :: "gsm_mqtt_client \<Rightarrow> gsmr \<times> gsm_mqtt_client" where
  "gsm_mqtt_client_disconnect c =
     (if conn_state c \<noteq> GSM_MQTT_CONN_DISCONNECTED \<and> conn_state c \<noteq> GSM_MQTT_CONN_DISCONNECTING
      then mqtt_close c else (gsmERR, c))"

definition gsm_mqtt_client_subscribe ::
    "gsm_mqtt_client \<Rightarrow> u8 list \<Rightarrow> u8 \<Rightarrow> nat \<Rightarrow> gsmr \<times> gsm_mqtt_client" where
  "gsm_mqtt_client_subscribe c topic qos a =
     (case sub_unsub c topic qos a True of
        (r, c1) \<Rightarrow> (if r = 1 then gsmOK else gsmERR, c1))"

definition gsm_mqtt_client_unsubscribe ::
    "gsm_mqtt_client \<Rightarrow> u8 list \<Rightarrow> nat \<Rightarrow> gsmr \<times> gsm_mqtt_client" where
  "gsm_mqtt_client_unsubscribe c topic a =
     (case sub_unsub c topic 0 a False of
        (r, c1) \<Rightarrow> (if r = 1 then gsmOK else gsmERR, c1))"

text \<open>
  The remaining length \<open>gsm_mqtt_client_publish\<close> computes, a \<^verbatim>\<open>uint32_t\<close>:
  \<^verbatim>\<open>2 + len_topic + (payload != NULL ? payload_len : 0)\<close>, and 2 more for the
  packet id when the quality of service is not 0.
\<close>

definition publish_rem_len :: "u16 \<Rightarrow> u8 list option \<Rightarrow> u16 \<Rightarrow> u8 \<Rightarrow> u32" where
  "publish_rem_len len_topic payload payload_len qos_u8 =
     2 + ucast len_topic + (if payload \<noteq> None then ucast payload_len else 0)
       + (if qos_u8 > 0 then 2 else 0)"

text \<open>
  \<open>gsm_mqtt_client_publish\<close>; a \<^verbatim>\<open>NULL\<close> payload is \<open>None\<close>.  \<open>rem_len\<close> and
  \<open>raw_len\<close> are \<^verbatim>\<open>uint32_t\<close>; \<open>output_check_enough_memory\<close> and
  \<open>write_fixed_header\<close> take a \<^verbatim>\<open>uint16_t\<close>.
\<close>

definition gsm_mqtt_client_publish ::
    "gsm_mqtt_client \<Rightarrow> u8 list \<Rightarrow> u8 list option \<Rightarrow> u16 \<Rightarrow> u8 \<Rightarrow> u8 \<Rightarrow> nat
       \<Rightarrow> gsmr \<times> gsm_mqtt_client" where
  "gsm_mqtt_client_publish c topic payload payload_len qos retain a =
     (let qos_u8 = qos;
          len_topic = strlen_u16 topic
      in if len_topic = 0 then (gsmERR, c)
         else
           let rem_len = publish_rem_len len_topic payload payload_len qos_u8
           in if conn_state c \<noteq> GSM_MQTT_CONNECTED then (gsmCLOSED, c)
              else
                let raw_len = (ucast (output_check_enough_memory c (ucast rem_len)) :: u32)
                in if raw_len \<noteq> 0 then
                     (case (if qos_u8 > 0 then create_packet_id c else (0, c)) of
                        (pkt_id, c1) \<Rightarrow>
                          (case request_create c1 pkt_id a of
                             (None, c2) \<Rightarrow> (gsmERRMEM, c2)
                           | (Some i, c2) \<Rightarrow>
                               let c3 = c2\<lparr>requests := (requests c2)
                                          [i := (requests c2 ! i)
                                             \<lparr>expected_sent_len := written_total c2 + raw_len\<rparr>]\<rparr>;
                                   c4 = write_fixed_header c3 MQTT_MSG_TYPE_PUBLISH 0
                                          (min qos_u8 GSM_MQTT_QOS_EXACTLY_ONCE) retain (ucast rem_len);
                                   c5 = write_string c4 topic len_topic;
                                   c6 = (if qos_u8 \<noteq> 0 then write_u16 c5 pkt_id else c5);
                                   c7 = (case payload of
                                           None \<Rightarrow> c6
                                         | Some pl \<Rightarrow>
                                             if payload_len \<noteq> 0
                                             then write_data c6 (take (unat payload_len) pl) else c6);
                                   c8 = request_set_pending c7 i
                               in (gsmOK, send_data c8)))
                   else (gsmERRMEM, c))"

definition gsm_mqtt_client_is_connected :: "gsm_mqtt_client \<Rightarrow> bool" where
  "gsm_mqtt_client_is_connected c = (conn_state c = GSM_MQTT_CONNECTED)"

section \<open>Definitions for the statements and proofs\<close>

text \<open>
  The bodies of the two \<^verbatim>\<open>while\<close> loops over the request table, as functions of
  what \<open>request_get_pending\<close> returned.
\<close>

definition sent_requests_body :: "gsm_mqtt_client \<Rightarrow> nat option \<Rightarrow> gsm_mqtt_client" where
  "sent_requests_body c r =
     (case r of
        None \<Rightarrow> c
      | Some i \<Rightarrow>
          if sent_total c \<ge> expected_sent_len (requests c ! i)
          then sent_requests_loop
                 (evt_fn (request_delete c i) (GSM_MQTT_EVT_PUBLISH (arg (requests c ! i)) gsmOK))
          else c)"

definition closed_requests_body :: "gsm_mqtt_client \<Rightarrow> nat option \<Rightarrow> gsm_mqtt_client" where
  "closed_requests_body c r =
     (case r of
        None \<Rightarrow> c
      | Some i \<Rightarrow>
          closed_requests_loop
            (request_send_err_callback (request_delete c i)
               (status (requests c ! i)) (arg (requests c ! i))))"

text \<open>A request waits for its reply; the event that fails it when the connection closes.\<close>

definition request_pending :: "gsm_mqtt_request \<Rightarrow> bool" where
  "request_pending r \<longleftrightarrow> status r AND MQTT_REQUEST_FLAG_PENDING \<noteq> 0"

definition request_err_event :: "gsm_mqtt_request \<Rightarrow> gsm_mqtt_evt" where
  "request_err_event r =
     (if status r AND MQTT_REQUEST_FLAG_SUBSCRIBE \<noteq> 0 then GSM_MQTT_EVT_SUBSCRIBE (arg r) gsmERR
      else if status r AND MQTT_REQUEST_FLAG_UNSUBSCRIBE \<noteq> 0 then GSM_MQTT_EVT_UNSUBSCRIBE (arg r) gsmERR
      else GSM_MQTT_EVT_PUBLISH (arg r) gsmERR)"

text \<open>
  The length that the claim asks of a frame, \<open>frame_len_ok\<close>: two bytes for CONNACK,
  PUBACK, PUBREC, PUBREL and PUBCOMP, three for SUBACK and UNSUBACK, and for
  PUBLISH the two bytes of the topic length, the topic, and two bytes of packet
  id when the quality of service is not 0.
\<close>

definition frame_len_ok :: "gsm_mqtt_client \<Rightarrow> u8 list \<Rightarrow> bool" where
  "frame_len_ok c rx =
     (let msg_type = MQTT_RCV_GET_PACKET_TYPE (msg_hdr_byte c);
          n = unat (msg_rem_len c)
      in if msg_type = MQTT_MSG_TYPE_CONNACK \<or> msg_type = MQTT_MSG_TYPE_PUBACK
            \<or> msg_type = MQTT_MSG_TYPE_PUBREC \<or> msg_type = MQTT_MSG_TYPE_PUBREL
            \<or> msg_type = MQTT_MSG_TYPE_PUBCOMP
         then 2 \<le> n
         else if msg_type = MQTT_MSG_TYPE_SUBACK \<or> msg_type = MQTT_MSG_TYPE_UNSUBACK
         then 3 \<le> n
         else if msg_type = MQTT_MSG_TYPE_PUBLISH
         then (case rx_u16 rx 0 of
                 None \<Rightarrow> False
               | Some topic_len \<Rightarrow>
                   2 + unat topic_len
                     + (if MQTT_RCV_GET_PACKET_QOS (msg_hdr_byte c) > 0 then 2 else 0) \<le> n)
         else True)"

text \<open>
  The length that the reads of \<open>mqtt_process_incoming_message\<close> need,
  \<open>reads_len_ok\<close>: two bytes for CONNACK, for each of the six acknowledgements and
  for PUBLISH; a third byte for a SUBACK or UNSUBACK whose packet id is that of a
  pending request, since only then is the return code \<^verbatim>\<open>rx_buff[2]\<close> read; and for
  a PUBLISH whose quality of service is not 0 the two bytes of the packet id
  behind the topic.
\<close>

definition reads_len_ok :: "gsm_mqtt_client \<Rightarrow> u8 list \<Rightarrow> bool" where
  "reads_len_ok c rx =
     (let msg_type = MQTT_RCV_GET_PACKET_TYPE (msg_hdr_byte c);
          n = unat (msg_rem_len c)
      in if msg_type = MQTT_MSG_TYPE_CONNACK \<or> msg_type = MQTT_MSG_TYPE_PUBACK
            \<or> msg_type = MQTT_MSG_TYPE_PUBREC \<or> msg_type = MQTT_MSG_TYPE_PUBREL
            \<or> msg_type = MQTT_MSG_TYPE_PUBCOMP
         then 2 \<le> n
         else if msg_type = MQTT_MSG_TYPE_SUBACK \<or> msg_type = MQTT_MSG_TYPE_UNSUBACK
         then (case rx_u16 rx 0 of
                 None \<Rightarrow> False
               | Some pkt_id \<Rightarrow>
                   if request_get_pending c (uint pkt_id) = None then True else 3 \<le> n)
         else if msg_type = MQTT_MSG_TYPE_PUBLISH
         then (case rx_u16 rx 0 of
                 None \<Rightarrow> False
               | Some topic_len \<Rightarrow>
                   if MQTT_RCV_GET_PACKET_QOS (msg_hdr_byte c) > 0
                   then 2 + unat topic_len + 2 \<le> n else True)
         else True)"

subsection \<open>The clients of the scenarios\<close>

text \<open>
  Client id \<open>c1\<close>, keep-alive 60 seconds, no user name, password or will; a client
  with four request slots and buffers of 64 bytes that has started to connect.
\<close>

definition info_c1 :: gsm_mqtt_client_info where
  "info_c1 = \<lparr>client_id = [0x63, 0x31], user = None, pass = None, keep_alive = 60,
              will_topic = None, will_message = None, will_qos = 0\<rparr>"

definition client_connecting :: gsm_mqtt_client where
  "client_connecting = snd (gsm_mqtt_client_connect (gsm_mqtt_client_new 4 64 64) True gsmOK info_c1)"

text \<open>
  The same client after the transport became active, CONNACK \<open>20 02 00 00\<close> was
  received and the transport reported the 16 bytes of CONNECT as sent.
\<close>

definition client_connected :: gsm_mqtt_client where
  "client_connected =
     (case mqtt_conn_cb (mqtt_connected_cb client_connecting)
             (GSM_EVT_CONN_RECV [[0x20, 0x02, 0x00, 0x00]]) of
        None \<Rightarrow> client_connecting
      | Some c \<Rightarrow> mqtt_data_sent_cb c 16 True)"

text \<open>
  Then two publishes with quality of service 1 (packet ids 1 and 2) and a subscribe
  (packet id 3) of the application, with user arguments 11, 22 and 33.
\<close>

definition client_three_pending :: gsm_mqtt_client where
  "client_three_pending =
     (let c1 = snd (gsm_mqtt_client_publish client_connected [0x61] (Some [0x68]) 1 1 0 11);
          c2 = snd (gsm_mqtt_client_publish c1 [0x61] (Some [0x68]) 1 1 0 22)
      in snd (gsm_mqtt_client_subscribe c2 [0x61] 0 33))"

text \<open>
  The bytes that \<open>gsm_mqtt_client_publish\<close> hands to the transmit buffer, in the
  order of its calls: \<open>write_fixed_header\<close> (with the remaining length narrowed to
  16 bits, as the parameter is), \<open>write_string\<close> for the topic, \<open>write_u16\<close> for the
  packet id when the quality of service is not 0, \<open>write_data\<close> for the payload.
\<close>

definition publish_packet ::
    "u8 list \<Rightarrow> u8 list option \<Rightarrow> u16 \<Rightarrow> u8 \<Rightarrow> u8 \<Rightarrow> u16 \<Rightarrow> u8 list" where
  "publish_packet topic payload payload_len qos retain pkt_id =
     fixed_header_byte MQTT_MSG_TYPE_PUBLISH 0 (min qos GSM_MQTT_QOS_EXACTLY_ONCE) retain
     # rem_len_bytes (ucast (publish_rem_len (strlen_u16 topic) payload payload_len qos))
     @ ucast (drop_bit 8 (strlen_u16 topic)) # ucast (strlen_u16 topic AND 0xFF)
     # take (unat (strlen_u16 topic)) topic
     @ (if qos \<noteq> 0 then [ucast (drop_bit 8 pkt_id), ucast (pkt_id AND 0xFF)] else [])
     @ (case payload of
          None \<Rightarrow> []
        | Some pl \<Rightarrow> if payload_len \<noteq> 0 then take (unat payload_len) pl else [])"



definition next_packet_id :: "gsm_mqtt_client \<Rightarrow> gsm_mqtt_client" where
  "next_packet_id c = snd (create_packet_id c)"


text \<open>
  The operations on a client: the calls of the public interface and the events
  that the transport delivers to \<open>mqtt_conn_cb\<close>.  \<open>mqtt_run\<close> performs a list of
  them.  \<open>wire_bytes\<close> counts the bytes that \<^verbatim>\<open>gsm_conn_send\<close> accepted, and
  \<open>counters_kept c c'\<close> says that from \<open>c\<close> to \<open>c'\<close> \<open>sent_total\<close> did not change and
  \<open>written_total\<close> advanced by the bytes newly accepted.
\<close>

datatype mqtt_op =
    OP_CONNECT bool gsmr gsm_mqtt_client_info
  | OP_DISCONNECT
  | OP_SUBSCRIBE "u8 list" u8 nat
  | OP_UNSUBSCRIBE "u8 list" nat
  | OP_PUBLISH "u8 list" "u8 list option" u16 u8 u8 nat
  | OP_CONN_EVT gsm_evt

fun mqtt_step :: "gsm_mqtt_client \<Rightarrow> mqtt_op \<Rightarrow> gsm_mqtt_client option" where
  "mqtt_step c (OP_CONNECT attached start_res ci) =
     Some (snd (gsm_mqtt_client_connect c attached start_res ci))"
| "mqtt_step c OP_DISCONNECT = Some (snd (gsm_mqtt_client_disconnect c))"
| "mqtt_step c (OP_SUBSCRIBE topic qos a) = Some (snd (gsm_mqtt_client_subscribe c topic qos a))"
| "mqtt_step c (OP_UNSUBSCRIBE topic a) = Some (snd (gsm_mqtt_client_unsubscribe c topic a))"
| "mqtt_step c (OP_PUBLISH topic payload payload_len qos retain a) =
     Some (snd (gsm_mqtt_client_publish c topic payload payload_len qos retain a))"
| "mqtt_step c (OP_CONN_EVT evt) = mqtt_conn_cb c evt"

fun mqtt_run :: "gsm_mqtt_client \<Rightarrow> mqtt_op list \<Rightarrow> gsm_mqtt_client option" where
  "mqtt_run c [] = Some c"
| "mqtt_run c (op # ops) = (case mqtt_step c op of None \<Rightarrow> None | Some c1 \<Rightarrow> mqtt_run c1 ops)"

fun is_close :: "mqtt_op \<Rightarrow> bool" where
  "is_close (OP_CONN_EVT (GSM_EVT_CONN_CLOSE res forced)) = True"
| "is_close op = False"

fun sent_len_of :: "mqtt_op \<Rightarrow> nat" where
  "sent_len_of (OP_CONN_EVT (GSM_EVT_CONN_SEND n ok)) = n"
| "sent_len_of op = 0"

definition wire_bytes :: "gsm_mqtt_client \<Rightarrow> nat" where
  "wire_bytes c = length (concat (conn_wire c))"

definition counters_kept :: "gsm_mqtt_client \<Rightarrow> gsm_mqtt_client \<Rightarrow> bool" where
  "counters_kept c c' \<longleftrightarrow>
     sent_total c' = sent_total c
     \<and> (\<exists>new. conn_wire c' = conn_wire c @ new
              \<and> written_total c' = written_total c + of_nat (length (concat new)))"

text \<open>
  The clients and the inbound frame of the counter scenario: a client that has
  nothing to send and waits for a frame, the connected client after one publish
  at quality of service 0 of the topic \<open>a\<close> without payload, and a PUBREL frame
  for the packet id 7 followed by the send event for the four bytes of its
  PUBCOMP answer.
\<close>

definition idle_sender :: "gsm_mqtt_client \<Rightarrow> bool" where
  "idle_sender c \<longleftrightarrow>
     conn c \<and> \<not> is_sending c \<and> tx_buff c = gsm_buff_init 64 \<and> conn_send_res c = []
     \<and> parser_state c = MQTT_PARSER_STATE_INIT \<and> request_get_pending c 0 = None"

definition client_published :: gsm_mqtt_client where
  "client_published = snd (gsm_mqtt_client_publish client_connected [0x61] None 0 0 0 0)"

definition pubrel_frame :: "u8 list" where
  "pubrel_frame = [0x62, 0x02, 0x00, 0x07]"

definition pubrel_cycle :: "mqtt_op list" where
  "pubrel_cycle = [OP_CONN_EVT (GSM_EVT_CONN_RECV [pubrel_frame]), OP_CONN_EVT (GSM_EVT_CONN_SEND 4 True)]"







text \<open>
  \<open>parser_kept\<close>: two clients agree on the parser's fields.  \<open>parser_sim base c v\<close>:
  the client \<open>c\<close> is where the specification's parser \<open>v\<close> is, with \<open>base\<close> the
  frames dispatched before; of the staged bytes the client holds those that its
  receive buffer has room for.
\<close>

definition parser_kept :: "gsm_mqtt_client \<Rightarrow> gsm_mqtt_client \<Rightarrow> bool" where
  "parser_kept c c' \<longleftrightarrow>
     parser_state c' = parser_state c \<and> msg_hdr_byte c' = msg_hdr_byte c
     \<and> msg_rem_len c' = msg_rem_len c \<and> msg_rem_len_mult c' = msg_rem_len_mult c
     \<and> msg_curr_pos c' = msg_curr_pos c \<and> rx_buff c' = rx_buff c
     \<and> dispatched c' = dispatched c"


section \<open>The remaining length: encoder and decoder\<close>







lemma unat_drop_bit7: "unat (drop_bit 7 (v :: u16)) = unat v div 128"
  by (simp add: unat_drop_bit_eq) (simp add: drop_bit_eq_div)

lemma drop_bit7_eq_0: "drop_bit 7 (v :: u16) = 0 \<longleftrightarrow> v \<le> 0x7F"
proof -
  have "drop_bit 7 v = 0 \<longleftrightarrow> unat (drop_bit 7 v) = 0"
    by (simp only: unat_eq_0)
  also have "\<dots> \<longleftrightarrow> unat v < 128"
    by (simp add: unat_drop_bit7) arith
  also have "\<dots> \<longleftrightarrow> v \<le> 0x7F" by (simp add: word_le_nat_alt) arith
  finally show ?thesis .
qed

lemma rem_len_bytes_last:
  "v \<le> 0x7F \<Longrightarrow> rem_len_bytes v = [ucast (v AND 0x7F)]"
  by (subst rem_len_bytes.simps) (simp add: Let_def drop_bit7_eq_0 not_less [symmetric])

lemma rem_len_bytes_more:
  "\<not> v \<le> 0x7F \<Longrightarrow>
   rem_len_bytes v = (ucast (v AND 0x7F) OR 0x80) # rem_len_bytes (drop_bit 7 v)"
  by (subst rem_len_bytes.simps) (simp add: Let_def drop_bit7_eq_0 not_le)

lemma rem_len_bytes_length:
  "length (rem_len_bytes v) = (if v \<le> 0x7F then 1 else if v \<le> 0x3FFF then 2 else 3)"
proof -
  have d7: "drop_bit 7 v \<le> 0x7F \<longleftrightarrow> v \<le> 0x3FFF"
    by (simp add: word_le_nat_alt unat_drop_bit7) arith
  have "unat v < 65536"
    using unsigned_less [of v, where ?'a = nat] by simp
  moreover have "unat (drop_bit 7 (drop_bit 7 v)) = unat v div 128 div 128"
    by (simp only: unat_drop_bit7)
  ultimately have "unat (drop_bit 7 (drop_bit 7 v)) < 128"
    by arith
  then have d21: "drop_bit 7 (drop_bit 7 v) \<le> 0x7F"
    by (simp add: word_le_nat_alt)
  show ?thesis
  proof (cases "v \<le> 0x7F")
    case True
    then show ?thesis by (simp add: rem_len_bytes_last)
  next
    case False
    show ?thesis
    proof (cases "v \<le> 0x3FFF")
      case True
      with False d7 show ?thesis
        by (simp add: rem_len_bytes_more rem_len_bytes_last)
    next
      case b: False
      with False d7 have "\<not> drop_bit 7 v \<le> 0x7F" by simp
      with False b d21 show ?thesis
        by (simp add: rem_len_bytes_more rem_len_bytes_last del: drop_bit_drop_bit)
    qed
  qed
qed




section \<open>Evaluation and basic facts\<close>

text \<open>
  Code equations without bound variables over large terms, so that the scenarios
  evaluate.
\<close>

lemma sent_requests_body_code [code]:
  "sent_requests_body c None = c"
  "sent_requests_body c (Some i) =
     (if sent_total c \<ge> expected_sent_len (requests c ! i)
      then sent_requests_loop
             (evt_fn (request_delete c i) (GSM_MQTT_EVT_PUBLISH (arg (requests c ! i)) gsmOK))
      else c)"
  by (simp_all add: sent_requests_body_def)

lemma sent_requests_loop_code [code]:
  "sent_requests_loop c = sent_requests_body c (request_get_pending c 0)"
  by (subst sent_requests_loop.simps) (simp add: sent_requests_body_def)

lemma closed_requests_body_code [code]:
  "closed_requests_body c None = c"
  "closed_requests_body c (Some i) =
     closed_requests_loop
       (request_send_err_callback (request_delete c i)
          (status (requests c ! i)) (arg (requests c ! i)))"
  by (simp_all add: closed_requests_body_def)

lemma closed_requests_loop_code [code]:
  "closed_requests_loop c = closed_requests_body c (request_get_pending c (- 1))"
  by (subst closed_requests_loop.simps) (simp add: closed_requests_body_def)

lemma gsm_mqtt_client_publish_code [code]:
  "gsm_mqtt_client_publish c topic payload payload_len qos retain a =
     (if strlen_u16 topic = 0 then (gsmERR, c)
      else if conn_state c \<noteq> GSM_MQTT_CONNECTED then (gsmCLOSED, c)
      else
        let rem_len = publish_rem_len (strlen_u16 topic) payload payload_len qos;
            raw_len = (ucast (output_check_enough_memory c (ucast rem_len)) :: u32)
        in if raw_len = 0 then (gsmERRMEM, c)
           else
             let p = (if qos > 0 then create_packet_id c else (0, c));
                 r = request_create (snd p) (fst p) a
             in if Option.is_none (fst r) then (gsmERRMEM, snd r)
                else
                  let i = the (fst r);
                      c2 = snd r;
                      c3 = c2\<lparr>requests := (requests c2)
                             [i := (requests c2 ! i)\<lparr>expected_sent_len := written_total c2 + raw_len\<rparr>]\<rparr>;
                      c4 = write_fixed_header c3 MQTT_MSG_TYPE_PUBLISH 0
                             (min qos GSM_MQTT_QOS_EXACTLY_ONCE) retain (ucast rem_len);
                      c5 = write_string c4 topic (strlen_u16 topic);
                      c6 = (if qos \<noteq> 0 then write_u16 c5 (fst p) else c5);
                      c7 = (if payload \<noteq> None \<and> payload_len \<noteq> 0
                            then write_data c6 (take (unat payload_len) (the payload)) else c6);
                      c8 = request_set_pending c7 i
                  in (gsmOK, send_data c8))"
  by (simp add: gsm_mqtt_client_publish_def Let_def Option.is_none_def
           split: prod.split option.split)

lemma sub_unsub_code [code]:
  "sub_unsub c topic qos a sub =
     (if strlen_u16 topic = 0 then (0, c)
      else
        let rem_len = (2 + ucast (strlen_u16 topic) + 2 + (if sub then 1 else 0) :: u32)
        in if conn_state c = GSM_MQTT_CONNECTED \<and> output_check_enough_memory c (ucast rem_len) \<noteq> 0
           then
             let p = create_packet_id c;
                 r = request_create (snd p) (fst p) a
             in if Option.is_none (fst r) then (0, snd r)
                else
                  let i = the (fst r);
                      c2 = snd r;
                      c3 = write_fixed_header c2
                             (if sub then MQTT_MSG_TYPE_SUBSCRIBE else MQTT_MSG_TYPE_UNSUBSCRIBE)
                             0 1 0 (ucast rem_len);
                      c4 = write_u16 c3 (fst p);
                      c5 = write_string c4 topic (strlen_u16 topic);
                      c6 = (if sub then write_u8 c5 (min qos GSM_MQTT_QOS_EXACTLY_ONCE) else c5);
                      c7 = c6\<lparr>requests := (requests c6)
                             [i := (requests c6 ! i)\<lparr>status := status (requests c6 ! i) OR
                                (if sub then MQTT_REQUEST_FLAG_SUBSCRIBE
                                 else MQTT_REQUEST_FLAG_UNSUBSCRIBE)\<rparr>]\<rparr>;
                      c8 = request_set_pending c7 i
                  in (1, send_data c8)
           else (0, c))"
  by (simp add: sub_unsub_def Let_def Option.is_none_def split: prod.split option.split)

subsection \<open>The request table\<close>

lemma find_first_filter:
  "find_first P xs = Some i \<Longrightarrow> \<not> P y \<Longrightarrow>
   filter P xs = xs ! i # filter P (xs[i := y])"
proof (induction xs arbitrary: i)
  case Nil
  then show ?case by simp
next
  case (Cons x xs)
  show ?case
  proof (cases "P x")
    case True
    with Cons.prems show ?thesis by simp
  next
    case False
    with Cons.prems obtain j where j: "find_first P xs = Some j" and i: "i = Suc j"
      by auto
    from Cons.IH [OF j Cons.prems(2)] i False show ?thesis by simp
  qed
qed

lemma find_first_None: "find_first P xs = None \<Longrightarrow> filter P xs = []"
  by (induction xs) (auto split: if_splits)

lemma closed_requests_loop_effect:
  "events (closed_requests_loop c)
     = events c @ map request_err_event (filter request_pending (requests c))
   \<and> length (requests (closed_requests_loop c)) = length (requests c)
   \<and> conn_state (closed_requests_loop c) = conn_state c"
proof (induction c rule: closed_requests_loop.induct)
  case (1 c)
  show ?case
  proof (cases "request_get_pending c (- 1)")
    case None
    then have "filter request_pending (requests c) = []"
      by (simp add: request_get_pending_def find_first_None request_pending_def [abs_def])
    moreover from None have "closed_requests_loop c = c"
      by (subst closed_requests_loop.simps) simp
    ultimately show ?thesis by simp
  next
    case (Some i)
    define c' where "c' = request_send_err_callback (request_delete c i)
               (status (requests c ! i)) (arg (requests c ! i))"
    from Some have ff: "find_first request_pending (requests c) = Some i"
      by (simp add: request_get_pending_def request_pending_def [abs_def])
    have np: "\<not> request_pending ((requests c ! i)\<lparr>status := 0\<rparr>)"
      by (simp add: request_pending_def)
    have ev: "events c' = events c @ [request_err_event (requests c ! i)]"
      by (simp add: c'_def request_send_err_callback_def evt_fn_def request_delete_def request_err_event_def)
    have rq: "requests c' = (requests c)[i := (requests c ! i)\<lparr>status := 0\<rparr>]"
      by (simp add: c'_def request_send_err_callback_def evt_fn_def request_delete_def)
    have cs: "conn_state c' = conn_state c"
      by (simp add: c'_def request_send_err_callback_def evt_fn_def request_delete_def)
    have loop: "closed_requests_loop c = closed_requests_loop c'"
      using Some by (subst closed_requests_loop.simps) (simp add: c'_def)
    from "1.IH" [OF Some] have IH: "events (closed_requests_loop c')
        = events c' @ map request_err_event (filter request_pending (requests c'))
     \<and> length (requests (closed_requests_loop c')) = length (requests c')
     \<and> conn_state (closed_requests_loop c') = conn_state c'"
      by (simp add: c'_def)
    from find_first_filter [OF ff np] IH show ?thesis
      by (simp add: loop ev rq cs)
  qed
qed

subsection \<open>Writing to the output buffer\<close>

lemma gsm_buff_write_write:
  "gsm_buff_write (gsm_buff_write b xs) ys = gsm_buff_write b (xs @ ys)"
  by (cases "length xs \<le> buff_size b - length (buff_data b)")
     (simp_all add: gsm_buff_write_def gsm_buff_get_free_def min_def)

lemma write_data_write_data: "write_data (write_data c xs) ys = write_data c (xs @ ys)"
  by (simp add: write_data_def gsm_buff_write_write)

lemma write_u8_data: "write_u8 c b = write_data c [b]"
  by (simp add: write_u8_def write_data_def)

lemma write_u16_data: "write_u16 c n = write_data c [ucast (drop_bit 8 n), ucast (n AND 0xFF)]"
  by (simp add: write_u16_def write_u8_data write_data_write_data)

lemma write_string_data:
  "write_string c s len =
     write_data c (ucast (drop_bit 8 len) # ucast (len AND 0xFF) # take (unat len) s)"
  by (simp add: write_string_def write_u16_data write_data_write_data)

lemma foldl_write_u8: "foldl write_u8 c bs = write_data c bs"
proof (induction bs arbitrary: c)
  case Nil
  show ?case by (simp add: write_data_def gsm_buff_write_def)
next
  case (Cons b bs)
  then show ?case by (simp add: write_u8_data write_data_write_data)
qed

lemma write_fixed_header_data:
  "write_fixed_header c t d q r n = write_data c (fixed_header_byte t d q r # rem_len_bytes n)"
  by (simp add: write_fixed_header_def foldl_write_u8 write_u8_data write_data_write_data)

lemma write_data_fields [simp]:
  "conn (write_data c xs) = conn c"
  "info (write_data c xs) = info c"
  "conn_state (write_data c xs) = conn_state c"
  "events (write_data c xs) = events c"
  "is_sending (write_data c xs) = is_sending c"
  "sent_total (write_data c xs) = sent_total c"
  "written_total (write_data c xs) = written_total c"
  "last_packet_id (write_data c xs) = last_packet_id c"
  "requests (write_data c xs) = requests c"
  "rx_buff (write_data c xs) = rx_buff c"
  "parser_state (write_data c xs) = parser_state c"
  "conn_send_res (write_data c xs) = conn_send_res c"
  "conn_wire (write_data c xs) = conn_wire c"
  "dispatched (write_data c xs) = dispatched c"
  "tx_buff (write_data c xs) = gsm_buff_write (tx_buff c) xs"
  by (simp_all add: write_data_def)

lemma count_rem_len_bytes_eq:
  "count_rem_len_bytes t r = t + of_nat (length (rem_len_bytes r))"
proof (induction t r rule: count_rem_len_bytes.induct)
  case (1 t r)
  show ?case
  proof (cases "r \<le> 0x7F")
    case True
    then show ?thesis
      by (subst count_rem_len_bytes.simps) (simp add: Let_def drop_bit7_eq_0 rem_len_bytes_last)
  next
    case False
    then have nz: "drop_bit 7 r \<noteq> 0" by (simp add: drop_bit7_eq_0)
    have "count_rem_len_bytes t r = count_rem_len_bytes (t + 1) (drop_bit 7 r)"
      using nz by (subst count_rem_len_bytes.simps) (simp add: Let_def)
    also have "\<dots> = t + 1 + of_nat (length (rem_len_bytes (drop_bit 7 r)))"
      using nz by (intro "1.IH") simp_all
    finally show ?thesis using False by (simp add: rem_len_bytes_more)
  qed
qed

lemma output_check_enough_memory_eq:
  "output_check_enough_memory c rem_len =
     (if (of_nat (gsm_buff_get_free (tx_buff c)) :: u16)
           \<ge> rem_len + 1 + of_nat (length (rem_len_bytes rem_len))
      then rem_len + 1 + of_nat (length (rem_len_bytes rem_len)) else 0)"
  by (simp add: output_check_enough_memory_def Let_def count_rem_len_bytes_eq)

lemma gsm_conn_send_fields [simp]:
  "conn (snd (gsm_conn_send c blk)) = conn c"
  "info (snd (gsm_conn_send c blk)) = info c"
  "conn_state (snd (gsm_conn_send c blk)) = conn_state c"
  "events (snd (gsm_conn_send c blk)) = events c"
  "tx_buff (snd (gsm_conn_send c blk)) = tx_buff c"
  "is_sending (snd (gsm_conn_send c blk)) = is_sending c"
  "sent_total (snd (gsm_conn_send c blk)) = sent_total c"
  "written_total (snd (gsm_conn_send c blk)) = written_total c"
  "last_packet_id (snd (gsm_conn_send c blk)) = last_packet_id c"
  "requests (snd (gsm_conn_send c blk)) = requests c"
  "rx_buff (snd (gsm_conn_send c blk)) = rx_buff c"
  "parser_state (snd (gsm_conn_send c blk)) = parser_state c"
  "msg_hdr_byte (snd (gsm_conn_send c blk)) = msg_hdr_byte c"
  "msg_rem_len (snd (gsm_conn_send c blk)) = msg_rem_len c"
  "msg_rem_len_mult (snd (gsm_conn_send c blk)) = msg_rem_len_mult c"
  "msg_curr_pos (snd (gsm_conn_send c blk)) = msg_curr_pos c"
  "dispatched (snd (gsm_conn_send c blk)) = dispatched c"
  by (simp_all add: gsm_conn_send_def split: list.split)

lemma send_data_alt:
  "send_data c =
     (if is_sending c then c
      else if 0 < gsm_buff_get_linear_block_read_length (tx_buff c)
      then (if fst (gsm_conn_send c (gsm_buff_get_linear_block_read_address (tx_buff c))) = gsmOK
            then (snd (gsm_conn_send c (gsm_buff_get_linear_block_read_address (tx_buff c))))
                   \<lparr>written_total := written_total c
                        + of_nat (gsm_buff_get_linear_block_read_length (tx_buff c)),
                     is_sending := True\<rparr>
            else snd (gsm_conn_send c (gsm_buff_get_linear_block_read_address (tx_buff c))))
      else c\<lparr>tx_buff := gsm_buff_reset (tx_buff c)\<rparr>)"
  by (simp add: send_data_def Let_def gsm_conn_send_def split: prod.split list.split)

lemma send_data_fields [simp]:
  "conn (send_data c) = conn c"
  "info (send_data c) = info c"
  "conn_state (send_data c) = conn_state c"
  "events (send_data c) = events c"
  "sent_total (send_data c) = sent_total c"
  "last_packet_id (send_data c) = last_packet_id c"
  "requests (send_data c) = requests c"
  "rx_buff (send_data c) = rx_buff c"
  "parser_state (send_data c) = parser_state c"
  "msg_hdr_byte (send_data c) = msg_hdr_byte c"
  "msg_rem_len (send_data c) = msg_rem_len c"
  "msg_rem_len_mult (send_data c) = msg_rem_len_mult c"
  "msg_curr_pos (send_data c) = msg_curr_pos c"
  "dispatched (send_data c) = dispatched c"
  by (simp_all add: send_data_alt)

lemma send_data_tx_buff:
  "is_sending c \<or> 0 < gsm_buff_get_linear_block_read_length (tx_buff c) \<Longrightarrow>
   tx_buff (send_data c) = tx_buff c"
  by (auto simp: send_data_alt)

subsection \<open>Packet ids, request slots and the memory check\<close>

lemma find_first_None_iff: "find_first P xs = None \<longleftrightarrow> (\<forall>x \<in> set xs. \<not> P x)"
  by (induction xs) auto

lemma create_packet_id_fields [simp]:
  "requests (snd (create_packet_id c)) = requests c"
  "tx_buff (snd (create_packet_id c)) = tx_buff c"
  "conn_state (snd (create_packet_id c)) = conn_state c"
  "written_total (snd (create_packet_id c)) = written_total c"
  "sent_total (snd (create_packet_id c)) = sent_total c"
  "is_sending (snd (create_packet_id c)) = is_sending c"
  "events (snd (create_packet_id c)) = events c"
  "sys_now (snd (create_packet_id c)) = sys_now c"
  by (simp_all add: create_packet_id_def Let_def)

lemma request_create_None:
  "fst (request_create c p a) = None \<longleftrightarrow>
     (\<forall>r \<in> set (requests c). status r AND MQTT_REQUEST_FLAG_IN_USE \<noteq> 0)"
proof (cases "find_first (\<lambda>r. status r AND MQTT_REQUEST_FLAG_IN_USE = 0) (requests c)")
  case None
  then have "\<forall>r \<in> set (requests c). status r AND MQTT_REQUEST_FLAG_IN_USE \<noteq> 0"
    by (simp add: find_first_None_iff)
  with None show ?thesis
    by (simp add: request_create_def)
next
  case (Some i)
  then have "\<not> (\<forall>r \<in> set (requests c). status r AND MQTT_REQUEST_FLAG_IN_USE \<noteq> 0)"
    using find_first_None_iff [of "\<lambda>r. status r AND MQTT_REQUEST_FLAG_IN_USE = 0" "requests c"]
    by simp
  with Some show ?thesis
    by (simp add: request_create_def)
qed

lemma unat_ucast_u16_u32: "unat (ucast (x :: u16) :: u32) = unat x"
proof -
  have "unat x < 2 ^ 16" using unsigned_less [of x, where ?'a = nat] by simp
  then have "unat x < 2 ^ 32" by simp
  then show ?thesis
    by (simp add: unsigned_ucast_eq take_bit_nat_eq_self)
qed

lemma unat_ucast_u32_u16: "unat (ucast (x :: u32) :: u16) = unat x mod 65536"
  by (simp add: unsigned_ucast_eq take_bit_eq_mod)

lemma ucast_u16_u32_eq_0: "(ucast (x :: u16) :: u32) = 0 \<longleftrightarrow> x = 0"
  using unat_ucast_u16_u32 [of x] by (metis unat_eq_0)

lemma output_check_zero_iff:
  assumes "unat rem_len \<le> 65531" and "gsm_buff_get_free (tx_buff c) \<le> 65535"
  shows "output_check_enough_memory c rem_len = 0 \<longleftrightarrow>
           gsm_buff_get_free (tx_buff c) < unat rem_len + 1 + length (rem_len_bytes rem_len)"
proof -
  define k where "k = length (rem_len_bytes rem_len)"
  have k: "1 \<le> k" "k \<le> 3" by (simp_all add: k_def rem_len_bytes_length)
  define total :: u16 where "total = rem_len + 1 + of_nat k"
  have "unat total = (unat rem_len + 1 + k) mod 65536"
    by (simp add: total_def unat_word_ariths unat_of_nat mod_simps)
  with assms(1) k have ut: "unat total = unat rem_len + 1 + k" by simp
  then have nz: "total \<noteq> 0" using unat_eq_0 [of total] by simp
  have uf: "unat (of_nat (gsm_buff_get_free (tx_buff c)) :: u16) = gsm_buff_get_free (tx_buff c)"
    using assms(2) by (simp add: unat_of_nat)
  show ?thesis
    using nz by (auto simp: output_check_enough_memory_eq word_le_nat_alt uf ut
        simp flip: k_def total_def)
qed

subsection \<open>Reads of the dispatcher\<close>

lemma rx_u16_Some_iff: "rx_u16 rx i \<noteq> None \<longleftrightarrow> i + 2 \<le> length rx"
  by (auto simp: rx_u16_def rx_at_def)

lemma rx_at_Some_iff: "rx_at rx i \<noteq> None \<longleftrightarrow> i < length rx"
  by (simp add: rx_at_def)

lemma request_get_pending_dispatched [simp]:
  "request_get_pending (c\<lparr>dispatched := d\<rparr>) p = request_get_pending c p"
  by (simp add: request_get_pending_def)

lemma process_connack_ok: "process_connack c rx \<noteq> None \<longleftrightarrow> 2 \<le> length rx"
  by (auto simp: process_connack_def rx_at_def)

lemma process_ack_ok:
  "process_ack c t rx \<noteq> None \<longleftrightarrow>
     2 \<le> length rx \<and>
     ((t = MQTT_MSG_TYPE_SUBACK \<or> t = MQTT_MSG_TYPE_UNSUBACK)
        \<and> (\<exists>p. rx_u16 rx 0 = Some p \<and> request_get_pending c (uint p) \<noteq> None)
      \<longrightarrow> 3 \<le> length rx)"
proof (cases "rx_u16 rx 0")
  case None
  with rx_u16_Some_iff [of rx 0] show ?thesis by (simp add: process_ack_def)
next
  case (Some p)
  with rx_u16_Some_iff [of rx 0] have l2: "2 \<le> length rx" by simp
  show ?thesis
  proof (cases "request_get_pending c (uint p)")
    case None
    with Some l2 show ?thesis by (simp add: process_ack_def)
  next
    case (Some i)
    with \<open>rx_u16 rx 0 = Some p\<close> l2 show ?thesis
      by (auto simp: process_ack_def rx_at_def)
  qed
qed

lemma process_publish_ok:
  assumes len: "length rx = unat (msg_rem_len c)"
  shows "process_publish c rx \<noteq> None \<longleftrightarrow>
     (case rx_u16 rx 0 of
        None \<Rightarrow> False
      | Some topic_len \<Rightarrow>
          if MQTT_RCV_GET_PACKET_QOS (msg_hdr_byte c) > 0
          then 2 + unat topic_len + 2 \<le> unat (msg_rem_len c) else True)"
proof (cases "rx_u16 rx 0")
  case None
  then show ?thesis by (simp add: process_publish_def Let_def)
next
  case (Some tl)
  show ?thesis
  proof (cases "MQTT_RCV_GET_PACKET_QOS (msg_hdr_byte c) > 0")
    case True
    show ?thesis
    proof (cases "rx_u16 rx (2 + unat tl)")
      case None
      with rx_u16_Some_iff [of rx "2 + unat tl"] len
      have "\<not> 2 + unat tl + 2 \<le> unat (msg_rem_len c)"
        by simp
      with Some True None show ?thesis
        by (simp add: process_publish_def Let_def)
    next
      case p: (Some p)
      with rx_u16_Some_iff [of rx "2 + unat tl"] len
      have "2 + unat tl + 2 \<le> unat (msg_rem_len c)"
        by simp
      with Some True p show ?thesis
        by (simp add: process_publish_def Let_def)
    qed
  next
    case False
    with Some show ?thesis
      by (simp add: process_publish_def Let_def)
  qed
qed

subsection \<open>What a successful publish writes\<close>

lemma write_data_Nil: "write_data c [] = c"
  by (simp add: write_data_def gsm_buff_write_def)

lemma request_create_fields [simp]:
  "tx_buff (snd (request_create c p a)) = tx_buff c"
  "is_sending (snd (request_create c p a)) = is_sending c"
  "conn_state (snd (request_create c p a)) = conn_state c"
  "written_total (snd (request_create c p a)) = written_total c"
  "sent_total (snd (request_create c p a)) = sent_total c"
  "last_packet_id (snd (request_create c p a)) = last_packet_id c"
  "events (snd (request_create c p a)) = events c"
  by (simp_all add: request_create_def split: option.split)

lemma request_set_pending_fields [simp]:
  "tx_buff (request_set_pending c i) = tx_buff c"
  "is_sending (request_set_pending c i) = is_sending c"
  "conn_state (request_set_pending c i) = conn_state c"
  "written_total (request_set_pending c i) = written_total c"
  "sent_total (request_set_pending c i) = sent_total c"
  "last_packet_id (request_set_pending c i) = last_packet_id c"
  "events (request_set_pending c i) = events c"
  by (simp_all add: request_set_pending_def)

lemma publish_ok_tx_buff:
  assumes "fst (gsm_mqtt_client_publish c topic payload payload_len qos retain a) = gsmOK"
  shows "\<exists>c8. snd (gsm_mqtt_client_publish c topic payload payload_len qos retain a) = send_data c8
           \<and> is_sending c8 = is_sending c
           \<and> tx_buff c8 = gsm_buff_write (tx_buff c)
               (publish_packet topic payload payload_len qos retain
                  (if qos > 0 then fst (create_packet_id c) else 0))"
proof -
  from assms have a: "strlen_u16 topic \<noteq> 0" "conn_state c = GSM_MQTT_CONNECTED"
    by (auto simp: gsm_mqtt_client_publish_code Let_def split: if_splits)
  define rem_len where "rem_len = publish_rem_len (strlen_u16 topic) payload payload_len qos"
  define p where "p = (if qos > 0 then create_packet_id c else (0, c))"
  define r where "r = request_create (snd p) (fst p) a"
  from assms a have b: "(ucast (output_check_enough_memory c (ucast rem_len)) :: u32) \<noteq> 0"
    "\<not> Option.is_none (fst r)"
    by (auto simp: gsm_mqtt_client_publish_code Let_def rem_len_def p_def r_def split: if_splits)
  define c3 where "c3 = (snd r)\<lparr>requests := (requests (snd r))
       [the (fst r) := (requests (snd r) ! the (fst r))\<lparr>expected_sent_len := written_total (snd r)
           + ucast (output_check_enough_memory c (ucast rem_len))\<rparr>]\<rparr>"
  define c8 where "c8 = request_set_pending
      (write_data c3 (publish_packet topic payload payload_len qos retain (fst p))) (the (fst r))"
  have c3: "tx_buff c3 = tx_buff c" "is_sending c3 = is_sending c"
    by (simp_all add: c3_def r_def p_def)
  have "snd (gsm_mqtt_client_publish c topic payload payload_len qos retain a) = send_data c8"
    using a b
    unfolding c8_def c3_def r_def p_def rem_len_def publish_packet_def
    by (cases "qos > 0"; cases payload)
       (simp_all add: gsm_mqtt_client_publish_code Let_def write_fixed_header_data
          write_string_data write_u16_data write_data_write_data write_data_Nil word_gt_0)
  moreover have "fst p = (if qos > 0 then fst (create_packet_id c) else 0)"
    by (simp add: p_def)
  ultimately show ?thesis
    by (intro exI [of _ c8]) (simp add: c8_def c3)
qed

subsection \<open>The packet-id generator\<close>








lemma next_packet_id_fields [simp]:
  "output_check_enough_memory (next_packet_id c) r = output_check_enough_memory c r"
  "conn_state (next_packet_id c) = conn_state c"
  "requests (next_packet_id c) = requests c"
  by (simp_all add: next_packet_id_def output_check_enough_memory_def)








subsection \<open>The byte counters\<close>

lemma counters_kept_refl [simp]: "counters_kept c c"
  by (simp add: counters_kept_def)

lemma counters_kept_update [simp]:
  "counters_kept a (b\<lparr>conn := x1\<rparr>) = counters_kept a b"
  "counters_kept a (b\<lparr>info := x2\<rparr>) = counters_kept a b"
  "counters_kept a (b\<lparr>conn_state := x3\<rparr>) = counters_kept a b"
  "counters_kept a (b\<lparr>poll_time := x4\<rparr>) = counters_kept a b"
  "counters_kept a (b\<lparr>events := x5\<rparr>) = counters_kept a b"
  "counters_kept a (b\<lparr>tx_buff := x6\<rparr>) = counters_kept a b"
  "counters_kept a (b\<lparr>is_sending := x7\<rparr>) = counters_kept a b"
  "counters_kept a (b\<lparr>last_packet_id := x8\<rparr>) = counters_kept a b"
  "counters_kept a (b\<lparr>requests := x9\<rparr>) = counters_kept a b"
  "counters_kept a (b\<lparr>rx_buff := y1\<rparr>) = counters_kept a b"
  "counters_kept a (b\<lparr>parser_state := y2\<rparr>) = counters_kept a b"
  "counters_kept a (b\<lparr>msg_hdr_byte := y3\<rparr>) = counters_kept a b"
  "counters_kept a (b\<lparr>msg_rem_len := y4\<rparr>) = counters_kept a b"
  "counters_kept a (b\<lparr>msg_rem_len_mult := y5\<rparr>) = counters_kept a b"
  "counters_kept a (b\<lparr>msg_curr_pos := y6\<rparr>) = counters_kept a b"
  "counters_kept a (b\<lparr>conn_send_res := y7\<rparr>) = counters_kept a b"
  "counters_kept a (b\<lparr>conn_close_res := y8\<rparr>) = counters_kept a b"
  "counters_kept a (b\<lparr>dispatched := y9\<rparr>) = counters_kept a b"
  by (simp_all add: counters_kept_def)

lemma counters_kept_prim [simp]:
  "counters_kept a (evt_fn b e) = counters_kept a b"
  "counters_kept a (write_data b xs) = counters_kept a b"
  "counters_kept a (write_u8 b x) = counters_kept a b"
  "counters_kept a (write_u16 b w) = counters_kept a b"
  "counters_kept a (write_string b s n) = counters_kept a b"
  "counters_kept a (write_fixed_header b t d q r l) = counters_kept a b"
  "counters_kept a (request_delete b i) = counters_kept a b"
  "counters_kept a (request_set_pending b i) = counters_kept a b"
  "counters_kept a (snd (request_create b p u)) = counters_kept a b"
  "counters_kept a (snd (create_packet_id b)) = counters_kept a b"
  "counters_kept a (calc_rem_len b ch) = counters_kept a b"
  "counters_kept a (request_send_err_callback b st u) = counters_kept a b"
  "counters_kept a (snd (gsm_conn_close b)) = counters_kept a b"
  "counters_kept a (snd (mqtt_close b)) = counters_kept a b"
  by (simp_all add: evt_fn_def write_data_def write_u8_data write_u16_data write_string_data
        write_fixed_header_data request_delete_def request_set_pending_def request_create_def
        create_packet_id_def calc_rem_len_def request_send_err_callback_def gsm_conn_close_def
        mqtt_close_def Let_def split: option.split list.split prod.split)

lemma counters_kept_send_data [simp]:
  assumes "counters_kept a b"
  shows "counters_kept a (send_data b)"
proof -
  have len: "length (gsm_buff_get_linear_block_read_address (tx_buff b))
               = gsm_buff_get_linear_block_read_length (tx_buff b)"
    by (simp add: gsm_buff_get_linear_block_read_address_def
          gsm_buff_get_linear_block_read_length_def)
  from assms obtain new where n: "sent_total b = sent_total a"
    "conn_wire b = conn_wire a @ new"
    "written_total b = written_total a + of_nat (length (concat new))"
    by (auto simp: counters_kept_def)
  show ?thesis
    unfolding counters_kept_def send_data_alt
    using n len by (auto simp: gsm_conn_send_def split: list.split)
qed


lemma counters_kept_write_ack [simp]:
  "counters_kept a b \<Longrightarrow> counters_kept a (snd (write_ack_rec_rel_resp b t p q))"
  by (simp add: write_ack_rec_rel_resp_def)

lemma counters_kept_process_connack:
  "process_connack b rx = Some c' \<Longrightarrow> counters_kept a b \<Longrightarrow> counters_kept a c'"
  by (auto simp: process_connack_def split: option.splits if_splits)

lemma counters_kept_process_publish:
  "process_publish b rx = Some c' \<Longrightarrow> counters_kept a b \<Longrightarrow> counters_kept a c'"
  by (auto simp: process_publish_def Let_def split: option.splits if_splits)

lemma counters_kept_process_ack:
  "process_ack b t rx = Some c' \<Longrightarrow> counters_kept a b \<Longrightarrow> counters_kept a c'"
  by (auto simp: process_ack_def split: option.splits if_splits)

lemma counters_kept_process:
  assumes "mqtt_process_incoming_message b rx = Some c'" and "counters_kept a b"
  shows "counters_kept a c'"
proof -
  define b1 where "b1 = b\<lparr>dispatched := dispatched b @
                  [(msg_hdr_byte b, msg_rem_len b, take (unat (msg_rem_len b)) rx)]\<rparr>"
  from assms(2) have k: "counters_kept a b1"
    by (simp add: b1_def)
  from assms(1) have "process_connack b1 rx = Some c' \<or> process_publish b1 rx = Some c'
      \<or> c' = evt_fn b1 GSM_MQTT_EVT_KEEP_ALIVE
      \<or> (\<exists>t. process_ack b1 t rx = Some c') \<or> c' = b1"
    unfolding mqtt_process_incoming_message_def Let_def b1_def [symmetric]
    by (auto split: if_splits)
  with k show ?thesis
    by (auto dest: counters_kept_process_connack counters_kept_process_publish
          counters_kept_process_ack)
qed

lemma counters_kept_parse_block:
  "mqtt_parse_block b d = Some c' \<Longrightarrow> counters_kept a b \<Longrightarrow> counters_kept a c'"
proof (induction b d arbitrary: c' rule: mqtt_parse_block.induct)
  case (1 c)
  then show ?case by simp
next
  case (2 c ch d)
  show ?case
  proof (cases "parser_state c")
    case MQTT_PARSER_STATE_INIT
    with "2.prems" "2.IH"(1) show ?thesis
      by simp
  next
    case MQTT_PARSER_STATE_CALC_REM_LEN
    note st = this
    define c1 where "c1 = calc_rem_len c ch"
    have k1: "counters_kept a c1"
      using "2.prems"(2) by (simp add: c1_def)
    show ?thesis
    proof (cases "ch AND 0x80 = 0")
      case False
      with st "2.prems" "2.IH"(5) [OF st c1_def False] k1 show ?thesis
        by (simp add: c1_def Let_def)
    next
      case True
      note ch = this
      show ?thesis
      proof (cases "msg_rem_len c1 > 0")
        case False
        note z = this
        from st ch z "2.prems"(1) obtain c2 where
          p: "mqtt_process_incoming_message c1 (rx_buff c1) = Some c2"
          and r: "mqtt_parse_block (c2\<lparr>parser_state := MQTT_PARSER_STATE_INIT\<rparr>) d = Some c'"
          by (auto simp: c1_def Let_def split: option.splits)
        from counters_kept_process [OF p k1]
        have "counters_kept a (c2\<lparr>parser_state := MQTT_PARSER_STATE_INIT\<rparr>)"
          by simp
        with "2.IH"(4) [OF st c1_def ch z p r] show ?thesis .
      next
        case True
        note nz = this
        show ?thesis
        proof (cases "length (ch # d) > unat (msg_rem_len c1)")
          case True
          note fast = this
          from st ch nz fast "2.prems"(1) obtain c2 where
            p: "mqtt_process_incoming_message c1 d = Some c2"
            and r: "mqtt_parse_block (c2\<lparr>parser_state := MQTT_PARSER_STATE_INIT\<rparr>)
                      (drop (unat (msg_rem_len c2)) d) = Some c'"
            by (auto simp: c1_def Let_def split: option.splits)
          from counters_kept_process [OF p k1]
          have "counters_kept a (c2\<lparr>parser_state := MQTT_PARSER_STATE_INIT\<rparr>)"
            by simp
          with "2.IH"(2) [OF st c1_def ch nz fast p r] show ?thesis .
        next
          case False
          with st ch nz "2.prems"(1) "2.IH"(3) [OF st c1_def ch nz False] k1 show ?thesis
            by (simp add: c1_def Let_def)
        qed
      qed
    qed
  next
    case MQTT_PARSER_STATE_READ_REM
    note st = this
    define c1 where "c1 = (if unat (msg_curr_pos c) < length (rx_buff c)
                     then c\<lparr>rx_buff := (rx_buff c)[unat (msg_curr_pos c) := ch]\<rparr> else c)"
    define c2 where "c2 = c1\<lparr>msg_curr_pos := msg_curr_pos c1 + 1\<rparr>"
    have k2: "counters_kept a c2"
      using "2.prems"(2) by (simp add: c2_def c1_def)
    have eq: "mqtt_parse_block c (ch # d) =
        (if msg_curr_pos c2 = msg_rem_len c2 then
           (if unat (msg_curr_pos c2) \<le> length (rx_buff c2) then
              (case mqtt_process_incoming_message c2 (rx_buff c2) of
                 None \<Rightarrow> None
               | Some c3 \<Rightarrow> mqtt_parse_block (c3\<lparr>parser_state := MQTT_PARSER_STATE_INIT\<rparr>) d)
            else mqtt_parse_block (c2\<lparr>parser_state := MQTT_PARSER_STATE_INIT\<rparr>) d)
         else mqtt_parse_block c2 d)"
      unfolding c2_def c1_def using st by (simp add: Let_def)
    note run = "2.prems"(1) [unfolded eq]
    show ?thesis
    proof (cases "msg_curr_pos c2 = msg_rem_len c2")
      case False
      with run have "mqtt_parse_block c2 d = Some c'"
        by simp
      with "2.IH"(8) [OF st c1_def c2_def False] k2 show ?thesis
        by simp
    next
      case True
      note full = this
      show ?thesis
      proof (cases "unat (msg_curr_pos c2) \<le> length (rx_buff c2)")
        case False
        with run full
        have "mqtt_parse_block (c2\<lparr>parser_state := MQTT_PARSER_STATE_INIT\<rparr>) d = Some c'"
          by simp
        with "2.IH"(7) [OF st c1_def c2_def full False] k2 show ?thesis
          by simp
      next
        case True
        note fit = this
        from run full fit obtain c3 where
          p: "mqtt_process_incoming_message c2 (rx_buff c2) = Some c3"
          and r: "mqtt_parse_block (c3\<lparr>parser_state := MQTT_PARSER_STATE_INIT\<rparr>) d = Some c'"
          by (auto split: option.splits)
        from counters_kept_process [OF p k2]
        have "counters_kept a (c3\<lparr>parser_state := MQTT_PARSER_STATE_INIT\<rparr>)"
          by simp
        with "2.IH"(6) [OF st c1_def c2_def full fit p r] show ?thesis .
      qed
    qed
  qed
qed

lemma counters_kept_parse_incoming:
  "mqtt_parse_incoming b pbuf = Some c' \<Longrightarrow> counters_kept a b \<Longrightarrow> counters_kept a c'"
proof (induction pbuf arbitrary: b)
  case Nil
  then show ?case by simp
next
  case (Cons blk pbuf)
  from Cons.prems(1) obtain c1 where p: "mqtt_parse_block b blk = Some c1"
    by (auto split: option.splits)
  from counters_kept_parse_block [OF p Cons.prems(2)] have k: "counters_kept a c1" .
  show ?case
  proof (cases "length blk > 0")
    case True
    with Cons.prems(1) p have "mqtt_parse_incoming c1 pbuf = Some c'"
      by simp
    from Cons.IH [OF this k] show ?thesis .
  next
    case False
    with Cons.prems(1) p k show ?thesis
      by simp
  qed
qed

lemma counters_kept_sent_requests_loop [simp]:
  "counters_kept a (sent_requests_loop b) = counters_kept a b"
proof (induction b rule: sent_requests_loop.induct)
  case (1 c)
  show ?case
  proof (cases "request_get_pending c 0")
    case None
    then show ?thesis
      by (subst sent_requests_loop.simps) simp
  next
    case (Some i)
    show ?thesis
    proof (cases "sent_total c \<ge> expected_sent_len (requests c ! i)")
      case True
      with Some "1.IH" [OF Some True] show ?thesis
        by (subst sent_requests_loop.simps) simp
    next
      case False
      with Some show ?thesis
        by (subst sent_requests_loop.simps) simp
    qed
  qed
qed

lemma counters_kept_connected_cb [simp]:
  "counters_kept a b \<Longrightarrow> counters_kept a (mqtt_connected_cb b)"
  by (simp add: mqtt_connected_cb_def Let_def split: option.split prod.split)

lemma counters_kept_poll_cb [simp]:
  "counters_kept a b \<Longrightarrow> counters_kept a (mqtt_poll_cb b)"
  by (simp add: mqtt_poll_cb_def Let_def)

lemma counters_kept_sub_unsub [simp]:
  "counters_kept a b \<Longrightarrow> counters_kept a (snd (sub_unsub b topic qos u sub))"
  by (simp add: sub_unsub_code Let_def)

lemma counters_kept_publish [simp]:
  "counters_kept a b \<Longrightarrow>
   counters_kept a (snd (gsm_mqtt_client_publish b topic payload payload_len qos retain u))"
  by (simp add: gsm_mqtt_client_publish_code Let_def)

lemma counters_kept_api [simp]:
  "counters_kept a b \<Longrightarrow> counters_kept a (snd (gsm_mqtt_client_subscribe b topic qos u))"
  "counters_kept a b \<Longrightarrow> counters_kept a (snd (gsm_mqtt_client_unsubscribe b topic u))"
  "counters_kept a b \<Longrightarrow> counters_kept a (snd (gsm_mqtt_client_connect b attached start_res ci))"
  "counters_kept a b \<Longrightarrow> counters_kept a (snd (gsm_mqtt_client_disconnect b))"
  by (simp_all add: gsm_mqtt_client_subscribe_def gsm_mqtt_client_unsubscribe_def
        gsm_mqtt_client_connect_def gsm_mqtt_client_disconnect_def case_prod_beta)


lemma counters_kept_step:
  assumes "mqtt_step c op = Some c'" and "\<not> is_close op"
  shows "counters_kept (c\<lparr>sent_total := sent_total c + of_nat (sent_len_of op)\<rparr>) c'"
proof (cases op)
  case (OP_CONN_EVT evt)
  show ?thesis
  proof (cases evt)
    case (GSM_EVT_CONN_RECV pbuf)
    with OP_CONN_EVT assms(1)
    have "mqtt_parse_incoming (c\<lparr>poll_time := 0\<rparr>) pbuf = Some c'"
      by (simp add: mqtt_conn_cb_def mqtt_data_recv_cb_def)
    from counters_kept_parse_incoming [OF this, of c] GSM_EVT_CONN_RECV OP_CONN_EVT
    show ?thesis
      by simp
  next
    case (GSM_EVT_CONN_SEND n ok)
    define c1 where "c1 = c\<lparr>is_sending := False, sent_total := sent_total c + of_nat n,
                           poll_time := 0\<rparr>"
    have k: "counters_kept (c\<lparr>sent_total := sent_total c + of_nat n\<rparr>) c1"
      by (simp add: c1_def counters_kept_def)
    from GSM_EVT_CONN_SEND OP_CONN_EVT assms(1)
    have "c' = (if \<not> ok then snd (mqtt_close c1)
        else send_data (sent_requests_loop (c1\<lparr>tx_buff := gsm_buff_skip (tx_buff c1) n\<rparr>)))"
      by (auto simp: mqtt_conn_cb_def mqtt_data_sent_cb_def Let_def c1_def split: if_splits)
    with k GSM_EVT_CONN_SEND OP_CONN_EVT show ?thesis
      by simp
  next
    case (GSM_EVT_CONN_CLOSE res forced)
    with OP_CONN_EVT assms(2) show ?thesis
      by simp
  qed (use OP_CONN_EVT assms(1) in \<open>auto simp: mqtt_conn_cb_def\<close>)
qed (use assms(1) in auto)

lemma pubrel_reply:
  assumes "conn b" "\<not> is_sending b" "tx_buff b = gsm_buff_init 64" "conn_send_res b = []"
  shows "\<exists>b'. process_ack b MQTT_MSG_TYPE_PUBREL [0x00, 0x07] = Some b'
           \<and> conn b' \<and> is_sending b'
           \<and> tx_buff b' = \<lparr>buff_size = 64, buff_out = 0, buff_data = [0x70, 0x02, 0x00, 0x07]\<rparr>
           \<and> conn_send_res b' = [] \<and> parser_state b' = parser_state b
           \<and> requests b' = requests b \<and> msg_rem_len b' = msg_rem_len b
           \<and> written_total b' = written_total b + 4 \<and> sent_total b' = sent_total b"
proof -
  have ev: "rx_u16 [0x00, 0x07] 0 = Some 7"
    "fixed_header_byte MQTT_MSG_TYPE_PUBCOMP 0 0 0 # rem_len_bytes 2 = [0x70, 0x02]"
    "count_rem_len_bytes 3 (2 :: u16) = 4"
    by code_simp+
  have chk: "output_check_enough_memory b 2 \<noteq> 0"
    by (simp add: output_check_enough_memory_def ev assms gsm_buff_init_def gsm_buff_get_free_def)
  define b1 where "b1 = write_data b [0x70, 0x02, 0x00, 0x07]"
  have w: "write_u16 (write_fixed_header b MQTT_MSG_TYPE_PUBCOMP 0 0 0 2) 7 = b1"
    unfolding write_fixed_header_data ev write_u16_data write_data_write_data b1_def by simp
  have tx: "tx_buff b1 = \<lparr>buff_size = 64, buff_out = 0, buff_data = [0x70, 0x02, 0x00, 0x07]\<rparr>"
    by (simp add: b1_def assms gsm_buff_init_def gsm_buff_write_def gsm_buff_get_free_def)
  have p: "process_ack b MQTT_MSG_TYPE_PUBREL [0x00, 0x07] = Some (send_data b1)"
    using chk by (simp add: process_ack_def ev write_ack_rec_rel_resp_def w)
  have s: "conn b1" "\<not> is_sending b1" "conn_send_res b1 = []"
    by (simp_all add: b1_def assms)
  show ?thesis
    unfolding p
    by (simp add: send_data_alt s tx gsm_buff_get_linear_block_read_length_def
          gsm_buff_get_linear_block_read_address_def gsm_conn_send_def)
       (simp add: b1_def write_data_def)
qed


lemma pubrel_recv:
  assumes "idle_sender c"
  shows "\<exists>c1. mqtt_step c (OP_CONN_EVT (GSM_EVT_CONN_RECV [pubrel_frame])) = Some c1
           \<and> conn c1 \<and> is_sending c1
           \<and> tx_buff c1 = \<lparr>buff_size = 64, buff_out = 0, buff_data = [0x70, 0x02, 0x00, 0x07]\<rparr>
           \<and> conn_send_res c1 = [] \<and> parser_state c1 = MQTT_PARSER_STATE_INIT
           \<and> requests c1 = requests c
           \<and> written_total c1 = written_total c + 4 \<and> sent_total c1 = sent_total c"
proof -
  from assms have a: "conn c" "\<not> is_sending c" "tx_buff c = gsm_buff_init 64"
    "conn_send_res c = []" "parser_state c = MQTT_PARSER_STATE_INIT"
    by (simp_all add: idle_sender_def)
  define b where "b = c\<lparr>poll_time := 0, msg_hdr_byte := 0x62, msg_curr_pos := 0,
      parser_state := MQTT_PARSER_STATE_CALC_REM_LEN, msg_rem_len := 2, msg_rem_len_mult := 1,
      dispatched := dispatched c @ [(0x62, 2, [0x00, 0x07])]\<rparr>"
  have ev: "MQTT_RCV_GET_PACKET_TYPE 0x62 = MQTT_MSG_TYPE_PUBREL"
    "(0 :: u32) OR push_bit (7 * unat (0 :: u8)) (ucast ((2 :: u8) AND 0x7F)) = 2"
    "(2 :: u8) AND 0x80 = 0"
    by code_simp+
  have "conn b" "\<not> is_sending b" "tx_buff b = gsm_buff_init 64" "conn_send_res b = []"
    by (simp_all add: b_def a)
  from pubrel_reply [OF this] obtain b' where b':
    "process_ack b MQTT_MSG_TYPE_PUBREL [0x00, 0x07] = Some b'"
    "conn b'" "is_sending b'"
    "tx_buff b' = \<lparr>buff_size = 64, buff_out = 0, buff_data = [0x70, 0x02, 0x00, 0x07]\<rparr>"
    "conn_send_res b' = []" "parser_state b' = parser_state b"
    "requests b' = requests b" "msg_rem_len b' = msg_rem_len b"
    "written_total b' = written_total b + 4" "sent_total b' = sent_total b"
    by blast
  have "mqtt_parse_block (c\<lparr>poll_time := 0\<rparr>) pubrel_frame
          = Some (b'\<lparr>parser_state := MQTT_PARSER_STATE_INIT\<rparr>)"
    using b'(1,8)
    by (simp add: pubrel_frame_def a calc_rem_len_def ev mqtt_process_incoming_message_def
          Let_def b_def)
  then have "mqtt_step c (OP_CONN_EVT (GSM_EVT_CONN_RECV [pubrel_frame]))
               = Some (b'\<lparr>parser_state := MQTT_PARSER_STATE_INIT\<rparr>)"
    by (simp add: mqtt_conn_cb_def mqtt_data_recv_cb_def pubrel_frame_def)
  with b' show ?thesis
    by (simp add: b_def)
qed

lemma pubrel_sent:
  assumes "conn c1" "is_sending c1"
    "tx_buff c1 = \<lparr>buff_size = 64, buff_out = 0, buff_data = [0x70, 0x02, 0x00, 0x07]\<rparr>"
    "conn_send_res c1 = []" "parser_state c1 = MQTT_PARSER_STATE_INIT"
    "request_get_pending c1 0 = None"
  shows "\<exists>c2. mqtt_step c1 (OP_CONN_EVT (GSM_EVT_CONN_SEND 4 True)) = Some c2
           \<and> idle_sender c2
           \<and> written_total c2 = written_total c1 \<and> sent_total c2 = sent_total c1 + 4"
proof -
  define d where "d = c1\<lparr>is_sending := False, sent_total := sent_total c1 + 4, poll_time := 0,
      tx_buff := \<lparr>buff_size = 64, buff_out = 4, buff_data = []\<rparr>\<rparr>"
  have g: "request_get_pending d 0 = None"
    using assms(6) by (simp add: request_get_pending_def d_def)
  then have l: "sent_requests_loop d = d"
    by (subst sent_requests_loop.simps) simp
  have "mqtt_step c1 (OP_CONN_EVT (GSM_EVT_CONN_SEND 4 True)) = Some (send_data d)"
    by (simp add: mqtt_conn_cb_def mqtt_data_sent_cb_def Let_def assms gsm_buff_skip_def l
          flip: d_def)
  moreover have "send_data d = d\<lparr>tx_buff := gsm_buff_init 64\<rparr>"
    by (simp add: send_data_alt d_def gsm_buff_get_linear_block_read_length_def
          gsm_buff_reset_def gsm_buff_init_def)
  ultimately show ?thesis
    using assms g
    by (simp add: idle_sender_def request_get_pending_def d_def)
qed

lemma pubrel_cycle_step:
  assumes "idle_sender c"
  shows "\<exists>c2. mqtt_run c pubrel_cycle = Some c2 \<and> idle_sender c2
           \<and> written_total c2 = written_total c + 4 \<and> sent_total c2 = sent_total c + 4"
proof -
  from pubrel_recv [OF assms] obtain c1 where c1:
    "mqtt_step c (OP_CONN_EVT (GSM_EVT_CONN_RECV [pubrel_frame])) = Some c1"
    "conn c1" "is_sending c1"
    "tx_buff c1 = \<lparr>buff_size = 64, buff_out = 0, buff_data = [0x70, 0x02, 0x00, 0x07]\<rparr>"
    "conn_send_res c1 = []" "parser_state c1 = MQTT_PARSER_STATE_INIT"
    "requests c1 = requests c"
    "written_total c1 = written_total c + 4" "sent_total c1 = sent_total c"
    by blast
  from assms c1(7) have "request_get_pending c1 0 = None"
    by (simp add: idle_sender_def request_get_pending_def)
  from pubrel_sent [OF c1(2-6) this] obtain c2 where c2:
    "mqtt_step c1 (OP_CONN_EVT (GSM_EVT_CONN_SEND 4 True)) = Some c2"
    "idle_sender c2" "written_total c2 = written_total c1" "sent_total c2 = sent_total c1 + 4"
    by blast
  from c1(1) c2(1) have "mqtt_run c pubrel_cycle = Some c2"
    by (simp add: pubrel_cycle_def)
  with c1 c2 show ?thesis
    by simp
qed

lemma mqtt_run_append:
  "mqtt_run c (xs @ ys) = (case mqtt_run c xs of None \<Rightarrow> None | Some c1 \<Rightarrow> mqtt_run c1 ys)"
  by (induction xs arbitrary: c) (simp_all split: option.split)

lemma pubrel_cycles:
  assumes "idle_sender c"
  shows "\<exists>c'. mqtt_run c (concat (replicate k pubrel_cycle)) = Some c' \<and> idle_sender c'
           \<and> written_total c' = written_total c + of_nat (4 * k)
           \<and> sent_total c' = sent_total c + of_nat (4 * k)"
  using assms
proof (induction k arbitrary: c)
  case 0
  then show ?case by simp
next
  case (Suc k)
  from pubrel_cycle_step [OF Suc.prems] obtain c2 where c2:
    "mqtt_run c pubrel_cycle = Some c2" "idle_sender c2"
    "written_total c2 = written_total c + 4" "sent_total c2 = sent_total c + 4"
    by blast
  from Suc.IH [OF c2(2)] obtain c' where c':
    "mqtt_run c2 (concat (replicate k pubrel_cycle)) = Some c'" "idle_sender c'"
    "written_total c' = written_total c2 + of_nat (4 * k)"
    "sent_total c' = sent_total c2 + of_nat (4 * k)"
    by blast
  from c2(1) c'(1) have "mqtt_run c (concat (replicate (Suc k) pubrel_cycle)) = Some c'"
    by (simp add: mqtt_run_append)
  with c2 c' show ?case
    by (simp add: algebra_simps)
qed


lemma counters_no_wrap:
  fixes w s :: u32
  assumes "unat w + k < 2 ^ 32"
  shows "w \<le> w + of_nat k \<and> (unat s + n \<le> unat w \<longrightarrow> s + of_nat n \<le> w + of_nat k)"
proof -
  from assms have k: "unat (w + of_nat k) = unat w + k"
    by (simp add: unat_word_ariths unat_of_nat)
  then have 1: "w \<le> w + of_nat k"
    by (simp add: word_le_nat_alt)
  have "s + of_nat n \<le> w + of_nat k" if a: "unat s + n \<le> unat w"
  proof -
    from a assms have "unat (s + of_nat n) = unat s + n"
      by (simp add: unat_word_ariths unat_of_nat)
    with a k show ?thesis
      by (simp add: word_le_nat_alt)
  qed
  with 1 show ?thesis
    by simp
qed

subsection \<open>The parser against the specification's parser\<close>

lemma parser_kept_refl [simp]: "parser_kept c c"
  by (simp add: parser_kept_def)

lemma parser_kept_update [simp]:
  "parser_kept a (b\<lparr>conn := x1\<rparr>) = parser_kept a b"
  "parser_kept a (b\<lparr>info := x2\<rparr>) = parser_kept a b"
  "parser_kept a (b\<lparr>conn_state := x3\<rparr>) = parser_kept a b"
  "parser_kept a (b\<lparr>poll_time := x4\<rparr>) = parser_kept a b"
  "parser_kept a (b\<lparr>events := x5\<rparr>) = parser_kept a b"
  "parser_kept a (b\<lparr>tx_buff := x6\<rparr>) = parser_kept a b"
  "parser_kept a (b\<lparr>is_sending := x7\<rparr>) = parser_kept a b"
  "parser_kept a (b\<lparr>last_packet_id := x8\<rparr>) = parser_kept a b"
  "parser_kept a (b\<lparr>requests := x9\<rparr>) = parser_kept a b"
  "parser_kept a (b\<lparr>written_total := y1\<rparr>) = parser_kept a b"
  "parser_kept a (b\<lparr>sent_total := y2\<rparr>) = parser_kept a b"
  "parser_kept a (b\<lparr>conn_send_res := y7\<rparr>) = parser_kept a b"
  "parser_kept a (b\<lparr>conn_wire := y8\<rparr>) = parser_kept a b"
  by (simp_all add: parser_kept_def)

lemma parser_kept_prim [simp]:
  "parser_kept a (evt_fn b e) = parser_kept a b"
  "parser_kept a (write_data b xs) = parser_kept a b"
  "parser_kept a (write_u16 b w) = parser_kept a b"
  "parser_kept a (write_fixed_header b t d q r l) = parser_kept a b"
  "parser_kept a (request_delete b i) = parser_kept a b"
  "parser_kept a (send_data b) = parser_kept a b"
  by (simp_all add: parser_kept_def evt_fn_def write_data_def write_u16_data
        write_fixed_header_data request_delete_def)

lemma parser_kept_write_ack [simp]:
  "parser_kept a (snd (write_ack_rec_rel_resp b t p q)) = parser_kept a b"
  by (simp add: write_ack_rec_rel_resp_def)























section \<open>The claims\<close>

subsection \<open>C1: the acknowledgement packets\<close>

text \<open>
  Claim C1 at the inputs of its scenario, on the connected client.  An inbound
  PUBLISH with quality of service 2 and packet id 7 is answered with PUBREC
  \<open>54 02 00 07\<close>, and one with quality of service 1 with PUBACK \<open>42 02 00 07\<close>:
  \<open>mqtt_process_incoming_message\<close> hands the quality of service of the received
  packet to \<open>write_ack_rec_rel_resp\<close>, which puts it into the fixed header.  The
  claim has \<open>50 02 00 07\<close> and a first byte \<open>0x40\<close>.  PUBREL \<open>62 02 00 07\<close> is
  answered with PUBCOMP \<open>70 02 00 07\<close> and PUBREC \<open>50 02 00 07\<close> with PUBREL
  \<open>62 02 00 07\<close>, as the claim says.
\<close>

theorem ack_responses_at_scenario:
  "map_option (\<lambda>c. (buff_data (tx_buff c), events c))
     (mqtt_data_recv_cb client_connected
        [[0x34, 0x09, 0x00, 0x03, 0x61, 0x2F, 0x62, 0x00, 0x07, 0x58, 0x59]])
     = Some ([0x54, 0x02, 0x00, 0x07],
             [GSM_MQTT_EVT_CONNECT GSM_MQTT_CONN_STATUS_ACCEPTED,
              GSM_MQTT_EVT_PUBLISH_RECV [0x61, 0x2F, 0x62] [0x58, 0x59] 0 2])
   \<and> map_option (\<lambda>c. buff_data (tx_buff c))
     (mqtt_data_recv_cb client_connected
        [[0x32, 0x09, 0x00, 0x03, 0x61, 0x2F, 0x62, 0x00, 0x07, 0x58, 0x59]])
     = Some [0x42, 0x02, 0x00, 0x07]
   \<and> map_option (\<lambda>c. buff_data (tx_buff c))
     (mqtt_data_recv_cb client_connected [[0x62, 0x02, 0x00, 0x07]])
     = Some [0x70, 0x02, 0x00, 0x07]
   \<and> map_option (\<lambda>c. buff_data (tx_buff c))
     (mqtt_data_recv_cb client_connected [[0x50, 0x02, 0x00, 0x07]])
     = Some [0x62, 0x02, 0x00, 0x07]"
  by code_simp

subsection \<open>C2: CONNECT and CONNACK\<close>

text \<open>
  Claim C2, as the code has it.  For a client whose connection info has client id
  \<open>c1\<close>, keep-alive 60 and no user name, password or will, and whose output buffer
  is empty with room for 16 to 65535 bytes, \<open>mqtt_connected_cb\<close> writes exactly
  \<open>10 0E 00 04 4D 51 54 54 04 02 00 3C 00 02 63 31\<close> (remaining length 14: ten
  bytes of variable header, two of length prefix, two of client id) and sets the
  state to CONNECTING.  Receiving CONNACK \<open>20 02 00 00\<close> then sets the state to
  CONNECTED and delivers the event \<open>CONNECT\<close> with status 0.
\<close>

theorem connect_packet_and_connack:
  assumes inf: "client_id (info c) = [0x63, 0x31]" "keep_alive (info c) = 60"
      "user (info c) = None" "pass (info c) = None" "will_topic (info c) = None"
    and buf: "tx_buff c = gsm_buff_init n" "16 \<le> n" "n < 65536"
  shows "buff_data (tx_buff (mqtt_connected_cb c))
           = [0x10, 0x0E, 0x00, 0x04, 0x4D, 0x51, 0x54, 0x54, 0x04, 0x02, 0x00, 0x3C, 0x00, 0x02, 0x63, 0x31]
         \<and> conn_state (mqtt_connected_cb c) = GSM_MQTT_CONNECTING
         \<and> (\<exists>c2. mqtt_data_recv_cb (mqtt_connected_cb c) [[0x20, 0x02, 0x00, 0x00]] = Some c2
                \<and> conn_state c2 = GSM_MQTT_CONNECTED
                \<and> events c2 = events c @ [GSM_MQTT_EVT_CONNECT GSM_MQTT_CONN_STATUS_ACCEPTED])"
proof -
  have fr: "(of_nat (gsm_buff_get_free (tx_buff c)) :: u16) = of_nat n"
    by (simp add: buf gsm_buff_get_free_def gsm_buff_init_def)
  have "(16 :: u16) \<le> of_nat n"
    using buf(2,3) by (simp add: word_le_nat_alt unat_of_nat)
  then have chk: "output_check_enough_memory c 14 = 16"
    by (simp add: output_check_enough_memory_eq fr rem_len_bytes_last)
  define pkt :: "u8 list" where "pkt = [0x10, 0x0E, 0x00, 0x04, 0x4D, 0x51, 0x54, 0x54, 0x04, 0x02, 0x00, 0x3C, 0x00, 0x02, 0x63, 0x31]"
  have cb: "mqtt_connected_cb c = send_data ((write_data c pkt)\<lparr>parser_state := MQTT_PARSER_STATE_INIT, poll_time := 0,
                             conn_state := GSM_MQTT_CONNECTING\<rparr>)"
    by (simp add: mqtt_connected_cb_def inf strlen_u16_def chk write_fixed_header_data write_string_data
           write_u16_data write_u8_data write_data_write_data fixed_header_byte_def rem_len_bytes_last pkt_def)
  define c0 where "c0 = (write_data c pkt)\<lparr>parser_state := MQTT_PARSER_STATE_INIT, poll_time := 0,
                             conn_state := GSM_MQTT_CONNECTING\<rparr>"
  define c1 where "c1 = mqtt_connected_cb c"
  have c10: "c1 = send_data c0" by (simp add: c1_def cb c0_def)
  have tx: "tx_buff c0 = \<lparr>buff_size = n, buff_out = 0, buff_data = pkt\<rparr>"
    using buf(2) by (simp add: c0_def buf(1) gsm_buff_init_def gsm_buff_write_def gsm_buff_get_free_def pkt_def)
  have lin: "0 < gsm_buff_get_linear_block_read_length (tx_buff c0)"
    using buf(2) by (simp add: tx gsm_buff_get_linear_block_read_length_def pkt_def)
  have c1: "tx_buff c1 = \<lparr>buff_size = n, buff_out = 0, buff_data = pkt\<rparr>"
    "conn_state c1 = GSM_MQTT_CONNECTING" "parser_state c1 = MQTT_PARSER_STATE_INIT"
    "events c1 = events c"
    using lin by (simp_all add: c10 send_data_tx_buff tx) (simp_all add: c0_def)
  have rc: "\<exists>c2. mqtt_data_recv_cb c1 [[0x20, 0x02, 0x00, 0x00]] = Some c2
                \<and> conn_state c2 = GSM_MQTT_CONNECTED
                \<and> events c2 = events c1 @ [GSM_MQTT_EVT_CONNECT GSM_MQTT_CONN_STATUS_ACCEPTED]"
    by (simp add: mqtt_data_recv_cb_def c1 calc_rem_len_def mqtt_process_incoming_message_def
          MQTT_RCV_GET_PACKET_TYPE_def process_connack_def rx_at_def evt_fn_def Let_def)
  from c1 rc show ?thesis
    by (simp add: c1_def [symmetric] pkt_def)
qed

theorem connect_packet_and_connack_witness:
  "buff_data (tx_buff (mqtt_connected_cb client_connecting))
     = [0x10, 0x0E, 0x00, 0x04, 0x4D, 0x51, 0x54, 0x54, 0x04, 0x02, 0x00, 0x3C, 0x00, 0x02, 0x63, 0x31]
   \<and> conn_state (mqtt_connected_cb client_connecting) = GSM_MQTT_CONNECTING
   \<and> (\<exists>c2. mqtt_data_recv_cb (mqtt_connected_cb client_connecting) [[0x20, 0x02, 0x00, 0x00]] = Some c2
          \<and> conn_state c2 = GSM_MQTT_CONNECTED
          \<and> events c2 = [GSM_MQTT_EVT_CONNECT GSM_MQTT_CONN_STATUS_ACCEPTED])"
proof -
  have ev: "client_id (info client_connecting) = [0x63, 0x31]"
    "keep_alive (info client_connecting) = 60"
    "user (info client_connecting) = None" "pass (info client_connecting) = None"
    "will_topic (info client_connecting) = None"
    "tx_buff client_connecting = gsm_buff_init 64"
    "events client_connecting = []"
    by code_simp+
  from connect_packet_and_connack [OF ev(1-6)] show ?thesis
    by (simp add: ev(7))
qed

text \<open>
  The second byte the spec gives for the CONNECT packet, \<open>0C\<close>, is not what the
  code writes: fourteen bytes follow it, and the code writes \<open>0E\<close>.
\<close>

theorem connect_packet_and_connack_counterexample:
  "buff_data (tx_buff (mqtt_connected_cb client_connecting))
     \<noteq> [0x10, 0x0C, 0x00, 0x04, 0x4D, 0x51, 0x54, 0x54, 0x04, 0x02, 0x00, 0x3C, 0x00, 0x02, 0x63, 0x31]
   \<and> conn_wire (mqtt_connected_cb client_connecting)
     = [[0x10, 0x0E, 0x00, 0x04, 0x4D, 0x51, 0x54, 0x54, 0x04, 0x02, 0x00, 0x3C, 0x00, 0x02, 0x63, 0x31]]"
  by code_simp

subsection \<open>C3: the close callback fails the pending requests\<close>

text \<open>
  Claim C3, as the code has it.  \<open>mqtt_closed_cb\<close> first delivers
  \<open>DISCONNECT\<close>, accepted when the state was CONNECTED or DISCONNECTING, and only
  then one failure event for every pending request, in the order of the request
  table: \<open>SUBSCRIBE\<close> or \<open>UNSUBSCRIBE\<close> with \<open>gsmERR\<close> for a request of that type,
  \<open>PUBLISH\<close> with \<open>gsmERR\<close> otherwise.  Afterwards the state is DISCONNECTED and
  every slot of the request table is zero.  With two publishes (ids 1, 2) and a
  subscribe (id 3) pending, the events are \<open>DISCONNECT{true}\<close>, \<open>PUBLISH{ERR}\<close>,
  \<open>PUBLISH{ERR}\<close>, \<open>SUBSCRIBE{ERR}\<close>.
\<close>

theorem closed_cb_fanout:
  "events (mqtt_closed_cb c res forced)
     = events c
       @ GSM_MQTT_EVT_DISCONNECT
           (conn_state c = GSM_MQTT_CONNECTED \<or> conn_state c = GSM_MQTT_CONN_DISCONNECTING)
       # map request_err_event (filter request_pending (requests c))
   \<and> conn_state (mqtt_closed_cb c res forced) = GSM_MQTT_CONN_DISCONNECTED
   \<and> requests (mqtt_closed_cb c res forced) = replicate (length (requests c)) zero_request"
proof -
  define c3 where "c3 = (evt_fn (c\<lparr>conn_state := GSM_MQTT_CONN_DISCONNECTED\<rparr>)
      (GSM_MQTT_EVT_DISCONNECT
         (conn_state c = GSM_MQTT_CONNECTED \<or> conn_state c = GSM_MQTT_CONN_DISCONNECTING)))\<lparr>conn := False\<rparr>"
  have c3: "events c3 = events c @ [GSM_MQTT_EVT_DISCONNECT
         (conn_state c = GSM_MQTT_CONNECTED \<or> conn_state c = GSM_MQTT_CONN_DISCONNECTING)]"
    "requests c3 = requests c" "conn_state c3 = GSM_MQTT_CONN_DISCONNECTED"
    by (simp_all add: c3_def evt_fn_def)
  have cb: "mqtt_closed_cb c res forced =
     (closed_requests_loop c3)\<lparr>requests := map (\<lambda>r. zero_request) (requests (closed_requests_loop c3)),
        is_sending := False, sent_total := 0, written_total := 0,
        parser_state := MQTT_PARSER_STATE_INIT,
        tx_buff := gsm_buff_reset (tx_buff (closed_requests_loop c3))\<rparr>"
    by (simp add: mqtt_closed_cb_def Let_def c3_def)
  from closed_requests_loop_effect [of c3] show ?thesis
    by (simp add: cb c3 map_replicate_const)
qed

theorem closed_cb_fanout_witness:
  "events (mqtt_closed_cb client_three_pending True False)
     = [GSM_MQTT_EVT_CONNECT GSM_MQTT_CONN_STATUS_ACCEPTED, GSM_MQTT_EVT_DISCONNECT True,
        GSM_MQTT_EVT_PUBLISH 11 gsmERR, GSM_MQTT_EVT_PUBLISH 22 gsmERR,
        GSM_MQTT_EVT_SUBSCRIBE 33 gsmERR]
   \<and> conn_state (mqtt_closed_cb client_three_pending True False) = GSM_MQTT_CONN_DISCONNECTED
   \<and> requests (mqtt_closed_cb client_three_pending True False) = replicate 4 zero_request"
proof -
  have ev: "conn_state client_three_pending = GSM_MQTT_CONNECTED"
    "events client_three_pending = [GSM_MQTT_EVT_CONNECT GSM_MQTT_CONN_STATUS_ACCEPTED]"
    "map request_err_event (filter request_pending (requests client_three_pending))
       = [GSM_MQTT_EVT_PUBLISH 11 gsmERR, GSM_MQTT_EVT_PUBLISH 22 gsmERR,
          GSM_MQTT_EVT_SUBSCRIBE 33 gsmERR]"
    "length (requests client_three_pending) = 4"
    by code_simp+
  from closed_cb_fanout [of client_three_pending True False] show ?thesis
    by (simp add: ev)
qed

text \<open>
  In the scenario of the claim \<open>DISCONNECT\<close> is the first of the four events, not
  the last.
\<close>

theorem closed_cb_fanout_counterexample:
  "events (mqtt_closed_cb client_three_pending True False)
     = events client_three_pending
       @ [GSM_MQTT_EVT_DISCONNECT True, GSM_MQTT_EVT_PUBLISH 11 gsmERR,
          GSM_MQTT_EVT_PUBLISH 22 gsmERR, GSM_MQTT_EVT_SUBSCRIBE 33 gsmERR]
   \<and> events (mqtt_closed_cb client_three_pending True False)
     \<noteq> events client_three_pending
       @ [GSM_MQTT_EVT_PUBLISH 11 gsmERR, GSM_MQTT_EVT_PUBLISH 22 gsmERR,
          GSM_MQTT_EVT_SUBSCRIBE 33 gsmERR, GSM_MQTT_EVT_DISCONNECT True]"
  by code_simp

subsection \<open>C4: the parser and the split of the stream\<close>




subsection \<open>C5: the remaining length, encoder and decoder\<close>




subsection \<open>C6: packet ids\<close>




subsection \<open>C7: a successful publish whose packet was cut\<close>

text \<open>
  Claim C7 at a failing input.  On the connected client, whose transmit buffer
  has 64 bytes, all free, a publish at quality of service 0 with the topic \<open>a\<close> and
  a payload of 65535 bytes has the remaining length 65538.
  \<open>output_check_enough_memory\<close> takes it as a 16-bit value, that is 2, and returns
  4, not 0.  The call returns \<open>gsmOK\<close>, and the buffer holds the header \<open>30 02\<close>, the
  topic and the first 59 bytes of the payload: 64 bytes of the 65540 that the
  encoder issued.  The claim has the check return a nonzero count only when the
  whole packet fits, and every byte of the packet written, for all topic and
  payload lengths that the interface accepts.
\<close>

theorem publish_truncated_at_scenario:
  "publish_rem_len (strlen_u16 [0x61]) (Some (replicate 65535 0x78)) 65535 0 = 65538
   \<and> output_check_enough_memory client_connected (ucast (65538 :: u32)) = 4
   \<and> fst (gsm_mqtt_client_publish client_connected [0x61] (Some (replicate 65535 0x78)) 65535 0 0 11)
       = gsmOK
   \<and> buff_data (tx_buff (snd
         (gsm_mqtt_client_publish client_connected [0x61] (Some (replicate 65535 0x78)) 65535 0 0 11)))
       = [0x30, 0x02, 0x00, 0x01, 0x61] @ replicate 59 0x78
   \<and> length (publish_packet [0x61] (Some (replicate 65535 0x78)) 65535 0 0 0) = 65540"
proof -
  have ev: "conn_state client_connected = GSM_MQTT_CONNECTED"
    "output_check_enough_memory client_connected 2 = 4"
    "output_check_enough_memory client_connected 65538 = 4"
    "output_check_enough_memory client_connected (ucast (65538 :: u32)) = 4"
    "fst (request_create client_connected 0 11) = Some 0"
    "tx_buff client_connected = \<lparr>buff_size = 64, buff_out = 0, buff_data = []\<rparr>"
    "is_sending client_connected = False"
    "strlen_u16 [0x61] = 1"
    by code_simp+
  have rl: "publish_rem_len (strlen_u16 [0x61]) (Some (replicate 65535 0x78)) 65535 0 = 65538"
    by (simp add: publish_rem_len_def ev)
  have rl1: "publish_rem_len 1 (Some (replicate 65535 0x78)) 65535 0 = 65538"
    using rl by (simp add: ev)
  have ok: "fst (gsm_mqtt_client_publish client_connected [0x61] (Some (replicate 65535 0x78))
               65535 0 0 11) = gsmOK"
    by (simp add: gsm_mqtt_client_publish_code Let_def ev rl1 Option.is_none_def)
  have pkt: "publish_packet [0x61] (Some (replicate 65535 0x78)) 65535 0 0 0
      = [0x30, 0x02, 0x00, 0x01, 0x61] @ replicate 65535 0x78"
    by (simp add: publish_packet_def rl1 ev rem_len_bytes_last fixed_header_byte_def)
  from publish_ok_tx_buff [OF ok] obtain c8 where
    c8: "snd (gsm_mqtt_client_publish client_connected [0x61] (Some (replicate 65535 0x78))
               65535 0 0 11) = send_data c8"
      "is_sending c8 = False"
      "tx_buff c8 = gsm_buff_write \<lparr>buff_size = 64, buff_out = 0, buff_data = []\<rparr>
                      ([0x30, 0x02, 0x00, 0x01, 0x61] @ replicate 65535 0x78)"
    by (auto simp: ev pkt)
  have tx: "tx_buff c8 = \<lparr>buff_size = 64, buff_out = 0,
              buff_data = [0x30, 0x02, 0x00, 0x01, 0x61] @ replicate 59 0x78\<rparr>"
    by (simp add: c8(3) gsm_buff_write_def gsm_buff_get_free_def)
  have "tx_buff (send_data c8) = tx_buff c8"
    by (rule send_data_tx_buff) (simp add: tx gsm_buff_get_linear_block_read_length_def)
  with c8(1) tx rl rl1 ok pkt ev(4) show ?thesis
    by simp
qed

subsection \<open>C8: the byte counters\<close>

text \<open>
  Claim C8, as far as the code has it.  The close callback leaves both counters
  at zero.  Every other operation advances \<open>written_total\<close> by the number of bytes
  that the transport accepted during it and \<open>sent_total\<close> by the length that a
  send event reports, both modulo \<open>2 ^ 32\<close>.  So \<open>written_total\<close> does not decrease
  as long as the sum stays below \<open>2 ^ 32\<close>, and then \<open>sent_total \<le> written_total\<close>
  holds after the operation if a send event reports no more bytes than were
  written and not yet reported (for the other operations: if it held before).
\<close>

theorem counters_step:
  assumes "mqtt_step c op = Some c'"
  shows "(is_close op \<longrightarrow> written_total c' = 0 \<and> sent_total c' = 0)
       \<and> (\<not> is_close op \<longrightarrow>
            wire_bytes c \<le> wire_bytes c'
          \<and> written_total c' = written_total c + of_nat (wire_bytes c' - wire_bytes c)
          \<and> sent_total c' = sent_total c + of_nat (sent_len_of op)
          \<and> (unat (written_total c) + (wire_bytes c' - wire_bytes c) < 2 ^ 32 \<longrightarrow>
               written_total c \<le> written_total c'
               \<and> (unat (sent_total c) + sent_len_of op \<le> unat (written_total c) \<longrightarrow>
                    sent_total c' \<le> written_total c')))"
proof (cases "is_close op")
  case True
  then obtain res forced where "op = OP_CONN_EVT (GSM_EVT_CONN_CLOSE res forced)"
    by (cases op rule: is_close.cases) simp_all
  with assms have "c' = mqtt_closed_cb c res forced"
    by (simp add: mqtt_conn_cb_def)
  then have "written_total c' = 0 \<and> sent_total c' = 0"
    by (simp add: mqtt_closed_cb_def Let_def)
  with True show ?thesis
    by simp
next
  case False
  from counters_kept_step [OF assms False] obtain new where n:
    "sent_total c' = sent_total c + of_nat (sent_len_of op)"
    "conn_wire c' = conn_wire c @ new"
    "written_total c' = written_total c + of_nat (length (concat new))"
    by (auto simp: counters_kept_def)
  from n(2) have w: "wire_bytes c' - wire_bytes c = length (concat new)"
    "wire_bytes c \<le> wire_bytes c'"
    by (simp_all add: wire_bytes_def)
  from False n(1,3) w
    counters_no_wrap [where w = "written_total c" and k = "length (concat new)"
      and s = "sent_total c" and n = "sent_len_of op"]
  show ?thesis
    by simp
qed

text \<open>
  The theorem on the connected client: a publish of five bytes, the send event
  for them, and a close.
\<close>

theorem counters_step_witness:
  "mqtt_step client_connected (OP_PUBLISH [0x61] None 0 0 0 0) = Some client_published
   \<and> unat (written_total client_connected)
        + (wire_bytes client_published - wire_bytes client_connected) < 2 ^ 32
   \<and> unat (sent_total client_connected) + 0 \<le> unat (written_total client_connected)
   \<and> written_total client_connected = 16 \<and> sent_total client_connected = 16
   \<and> written_total client_published = 21 \<and> sent_total client_published = 16
   \<and> written_total client_connected \<le> written_total client_published
   \<and> sent_total client_published \<le> written_total client_published
   \<and> mqtt_step client_published (OP_CONN_EVT (GSM_EVT_CONN_SEND 5 True))
        = Some (mqtt_data_sent_cb client_published 5 True)
   \<and> unat (sent_total client_published) + 5 \<le> unat (written_total client_published)
   \<and> sent_total (mqtt_data_sent_cb client_published 5 True)
        \<le> written_total (mqtt_data_sent_cb client_published 5 True)
   \<and> mqtt_step client_published (OP_CONN_EVT (GSM_EVT_CONN_CLOSE True False))
        = Some (mqtt_closed_cb client_published True False)
   \<and> written_total (mqtt_closed_cb client_published True False) = 0
   \<and> sent_total (mqtt_closed_cb client_published True False) = 0"
proof -
  have st: "mqtt_step client_connected (OP_PUBLISH [0x61] None 0 0 0 0) = Some client_published"
    "mqtt_step client_published (OP_CONN_EVT (GSM_EVT_CONN_SEND 5 True))
       = Some (mqtt_data_sent_cb client_published 5 True)"
    "mqtt_step client_published (OP_CONN_EVT (GSM_EVT_CONN_CLOSE True False))
       = Some (mqtt_closed_cb client_published True False)"
    by (simp_all add: client_published_def mqtt_conn_cb_def)
  have ev: "wire_bytes client_published - wire_bytes client_connected = 5"
    "wire_bytes (mqtt_data_sent_cb client_published 5 True) - wire_bytes client_published = 0"
    "written_total client_connected = 16" "sent_total client_connected = 16"
    "written_total client_published = 21" "sent_total client_published = 16"
    by code_simp+
  from counters_step [OF st(1)] counters_step [OF st(2)] counters_step [OF st(3)] st ev
  show ?thesis
    by simp
qed

text \<open>
  Claim C8 as stated fails: the counters are 32-bit and wrap.  The connected
  client has written and sent the 16 bytes of CONNECT.  After 1073741819 rounds
  of an inbound PUBREL, answered with the four bytes of PUBCOMP, and the send
  event for these, both counters are \<open>0xFFFFFFFC\<close>.  The answer to one more PUBREL
  takes \<open>written_total\<close> to 0, below its value before and below \<open>sent_total\<close>.
\<close>

theorem counters_step_counterexample:
  "map_option (\<lambda>c. (written_total c, sent_total c))
     (mqtt_run client_connected (concat (replicate 1073741819 pubrel_cycle)))
     = Some (0xFFFFFFFC, 0xFFFFFFFC)
   \<and> map_option (\<lambda>c. (written_total c, sent_total c))
     (mqtt_run client_connected (concat (replicate 1073741819 pubrel_cycle)
        @ [OP_CONN_EVT (GSM_EVT_CONN_RECV [pubrel_frame])]))
     = Some (0, 0xFFFFFFFC)"
proof -
  have ev: "idle_sender client_connected"
    "written_total client_connected = 16" "sent_total client_connected = 16"
    by code_simp+
  from pubrel_cycles [OF ev(1), of 1073741819] obtain c where c:
    "mqtt_run client_connected (concat (replicate 1073741819 pubrel_cycle)) = Some c"
    "idle_sender c" "written_total c = 0xFFFFFFFC" "sent_total c = 0xFFFFFFFC"
    by (auto simp: ev)
  from pubrel_recv [OF c(2)] obtain c1 where c1:
    "mqtt_step c (OP_CONN_EVT (GSM_EVT_CONN_RECV [pubrel_frame])) = Some c1"
    "written_total c1 = 0" "sent_total c1 = 0xFFFFFFFC"
    by (auto simp: c)
  from c c1 show ?thesis
    by (simp add: mqtt_run_append)
qed

subsection \<open>C9: the result of publish\<close>

text \<open>
  Claim C9, as the code has it.  \<open>gsm_mqtt_client_publish\<close> returns \<open>gsmERR\<close> when
  the topic is empty (its length cast to 16 bits is 0), whatever the state.
  Otherwise it returns \<open>gsmCLOSED\<close> exactly when the state is not CONNECTED,
  \<open>gsmERRMEM\<close> exactly when the client is connected and the memory check
  \<open>output_check_enough_memory\<close> returns 0 or every request slot is in use, and
  \<open>gsmOK\<close> in every other case.  For a remaining length of at most 65531 and a
  free space of at most 65535 bytes the memory check returns 0 exactly when the
  free space is less than the size of the packet: the remaining length, one header
  byte and the bytes that encode the remaining length.
\<close>

theorem publish_result:
  "fst (gsm_mqtt_client_publish c topic payload payload_len qos retain a) =
     (if strlen_u16 topic = 0 then gsmERR
      else if conn_state c \<noteq> GSM_MQTT_CONNECTED then gsmCLOSED
      else if output_check_enough_memory c
                (ucast (publish_rem_len (strlen_u16 topic) payload payload_len qos)) = 0
              \<or> (\<forall>r \<in> set (requests c). status r AND MQTT_REQUEST_FLAG_IN_USE \<noteq> 0)
      then gsmERRMEM else gsmOK)
   \<and> (unat (publish_rem_len (strlen_u16 topic) payload payload_len qos) \<le> 65531
        \<and> gsm_buff_get_free (tx_buff c) \<le> 65535 \<longrightarrow>
      (output_check_enough_memory c
          (ucast (publish_rem_len (strlen_u16 topic) payload payload_len qos)) = 0
       \<longleftrightarrow> gsm_buff_get_free (tx_buff c)
             < unat (publish_rem_len (strlen_u16 topic) payload payload_len qos) + 1
               + length (rem_len_bytes
                   (ucast (publish_rem_len (strlen_u16 topic) payload payload_len qos)))))"
proof -
  define rl where "rl = publish_rem_len (strlen_u16 topic) payload payload_len qos"
  have res: "fst (gsm_mqtt_client_publish c topic payload payload_len qos retain a) =
     (if strlen_u16 topic = 0 then gsmERR
      else if conn_state c \<noteq> GSM_MQTT_CONNECTED then gsmCLOSED
      else if output_check_enough_memory c (ucast rl) = 0
              \<or> (\<forall>r \<in> set (requests c). status r AND MQTT_REQUEST_FLAG_IN_USE \<noteq> 0)
      then gsmERRMEM else gsmOK)"
    by (simp add: gsm_mqtt_client_publish_code Let_def Option.is_none_def request_create_None
        ucast_u16_u32_eq_0 rl_def)
  have chk: "output_check_enough_memory c (ucast rl) = 0 \<longleftrightarrow>
       gsm_buff_get_free (tx_buff c) < unat rl + 1 + length (rem_len_bytes (ucast rl))"
    if "unat rl \<le> 65531" "gsm_buff_get_free (tx_buff c) \<le> 65535"
  proof -
    from that(1) have u: "unat (ucast rl :: u16) = unat rl"
      by (simp add: unat_ucast_u32_u16)
    with that output_check_zero_iff [of "ucast rl" c] show ?thesis by simp
  qed
  from res chk show ?thesis
    unfolding rl_def by blast
qed

theorem publish_result_witness:
  "fst (gsm_mqtt_client_publish client_connected [0x61, 0x2F, 0x62] (Some [0x68, 0x69]) 2 1 0 11)
     = gsmOK
   \<and> strlen_u16 [0x61, 0x2F, 0x62 :: u8] \<noteq> 0
   \<and> conn_state client_connected = GSM_MQTT_CONNECTED
   \<and> status (requests client_connected ! 0) AND MQTT_REQUEST_FLAG_IN_USE = 0
   \<and> unat (publish_rem_len (strlen_u16 [0x61, 0x2F, 0x62 :: u8]) (Some [0x68, 0x69]) 2 1) = 9
   \<and> gsm_buff_get_free (tx_buff client_connected) = 64
   \<and> output_check_enough_memory client_connected 9 = 11"
proof -
  have ev: "strlen_u16 [0x61, 0x2F, 0x62 :: u8] \<noteq> 0"
    "conn_state client_connected = GSM_MQTT_CONNECTED"
    "status (requests client_connected ! 0) AND MQTT_REQUEST_FLAG_IN_USE = 0"
    "publish_rem_len (strlen_u16 [0x61, 0x2F, 0x62 :: u8]) (Some [0x68, 0x69]) 2 1 = 9"
    "gsm_buff_get_free (tx_buff client_connected) = 64"
    "output_check_enough_memory client_connected 9 = 11"
    "requests client_connected ! 0 \<in> set (requests client_connected)"
    by code_simp+
  from ev(3,7) have free: "\<not> (\<forall>r \<in> set (requests client_connected).
       status r AND MQTT_REQUEST_FLAG_IN_USE \<noteq> 0)"
    by blast
  from publish_result [of client_connected "[0x61, 0x2F, 0x62]" "Some [0x68, 0x69]" 2 1 0 11]
    ev free show ?thesis
    by simp
qed

text \<open>
  With an empty topic the result is \<open>gsmERR\<close>, which is none of the three codes of
  the claim, on a connected client and also on one that is not connected.
\<close>

theorem publish_result_counterexample:
  "fst (gsm_mqtt_client_publish client_connected [] (Some [0x68, 0x69]) 2 1 0 11) = gsmERR
   \<and> fst (gsm_mqtt_client_publish client_connecting [] (Some [0x68, 0x69]) 2 1 0 11) = gsmERR
   \<and> conn_state client_connecting \<noteq> GSM_MQTT_CONNECTED"
  by code_simp

subsection \<open>C10: the reads of the dispatcher\<close>

text \<open>
  Claim C10, as the code has it.  \<open>mqtt_process_incoming_message\<close> indexes the rx
  buffer without a test of the remaining length.  Run on exactly the bytes of the
  frame (a list as long as \<open>msg_rem_len\<close>, so that a read outside the frame is
  \<open>None\<close>), every read is inside the frame exactly when the remaining length is
  at least 2 for CONNACK, PUBACK, PUBREC, PUBREL, PUBCOMP, SUBACK, UNSUBACK and
  PUBLISH, at least 3 for a SUBACK or UNSUBACK whose packet id is that of a
  pending request, and at least 2 + topic length + 2 for a PUBLISH whose quality
  of service is not 0.  The lengths of the claim are enough for this.
\<close>

theorem process_reads_in_frame:
  assumes "length rx = unat (msg_rem_len c)"
  shows "(mqtt_process_incoming_message c rx \<noteq> None \<longleftrightarrow> reads_len_ok c rx)
       \<and> (frame_len_ok c rx \<longrightarrow> mqtt_process_incoming_message c rx \<noteq> None)"
proof -
  consider (connack) "MQTT_RCV_GET_PACKET_TYPE (msg_hdr_byte c) = MQTT_MSG_TYPE_CONNACK"
    | (publish) "MQTT_RCV_GET_PACKET_TYPE (msg_hdr_byte c) = MQTT_MSG_TYPE_PUBLISH"
    | (pingresp) "MQTT_RCV_GET_PACKET_TYPE (msg_hdr_byte c) = MQTT_MSG_TYPE_PINGRESP"
    | (suback) "MQTT_RCV_GET_PACKET_TYPE (msg_hdr_byte c) = MQTT_MSG_TYPE_SUBACK
                 \<or> MQTT_RCV_GET_PACKET_TYPE (msg_hdr_byte c) = MQTT_MSG_TYPE_UNSUBACK"
    | (puback) "MQTT_RCV_GET_PACKET_TYPE (msg_hdr_byte c) = MQTT_MSG_TYPE_PUBREC
                 \<or> MQTT_RCV_GET_PACKET_TYPE (msg_hdr_byte c) = MQTT_MSG_TYPE_PUBREL
                 \<or> MQTT_RCV_GET_PACKET_TYPE (msg_hdr_byte c) = MQTT_MSG_TYPE_PUBACK
                 \<or> MQTT_RCV_GET_PACKET_TYPE (msg_hdr_byte c) = MQTT_MSG_TYPE_PUBCOMP"
    | (other) "MQTT_RCV_GET_PACKET_TYPE (msg_hdr_byte c) \<noteq> MQTT_MSG_TYPE_CONNACK"
        "MQTT_RCV_GET_PACKET_TYPE (msg_hdr_byte c) \<noteq> MQTT_MSG_TYPE_PUBLISH"
        "MQTT_RCV_GET_PACKET_TYPE (msg_hdr_byte c) \<noteq> MQTT_MSG_TYPE_PINGRESP"
        "MQTT_RCV_GET_PACKET_TYPE (msg_hdr_byte c) \<noteq> MQTT_MSG_TYPE_SUBACK"
        "MQTT_RCV_GET_PACKET_TYPE (msg_hdr_byte c) \<noteq> MQTT_MSG_TYPE_UNSUBACK"
        "MQTT_RCV_GET_PACKET_TYPE (msg_hdr_byte c) \<noteq> MQTT_MSG_TYPE_PUBREC"
        "MQTT_RCV_GET_PACKET_TYPE (msg_hdr_byte c) \<noteq> MQTT_MSG_TYPE_PUBREL"
        "MQTT_RCV_GET_PACKET_TYPE (msg_hdr_byte c) \<noteq> MQTT_MSG_TYPE_PUBACK"
        "MQTT_RCV_GET_PACKET_TYPE (msg_hdr_byte c) \<noteq> MQTT_MSG_TYPE_PUBCOMP"
    by blast
  then show ?thesis
  proof cases
    case connack
    with assms show ?thesis
      by (simp add: mqtt_process_incoming_message_def Let_def frame_len_ok_def reads_len_ok_def
          process_connack_ok del: not_None_eq)
  next
    case publish
    with assms show ?thesis
      by (auto simp: mqtt_process_incoming_message_def Let_def frame_len_ok_def reads_len_ok_def
          process_publish_ok simp del: not_None_eq split: option.splits)
  next
    case pingresp
    then show ?thesis
      by (simp add: mqtt_process_incoming_message_def Let_def frame_len_ok_def reads_len_ok_def)
  next
    case suback
    with assms rx_u16_Some_iff [of rx 0] show ?thesis
      by (auto simp: mqtt_process_incoming_message_def Let_def frame_len_ok_def reads_len_ok_def
          process_ack_ok simp del: not_None_eq split: option.splits)
  next
    case puback
    with assms show ?thesis
      by (auto simp: mqtt_process_incoming_message_def Let_def frame_len_ok_def reads_len_ok_def
          process_ack_ok simp del: not_None_eq)
  next
    case other
    then show ?thesis
      by (simp add: mqtt_process_incoming_message_def Let_def frame_len_ok_def reads_len_ok_def)
  qed
qed

text \<open>
  The theorem on the connected client: a PUBLISH frame of nine bytes at quality of
  service 1 has the length of the claim and is read inside the frame; a CONNACK
  frame of one byte is not.
\<close>

theorem process_reads_in_frame_witness:
  "length [0x00, 0x03, 0x61, 0x2F, 0x62, 0x00, 0x07, 0x58, 0x59 :: u8]
     = unat (msg_rem_len (client_connected\<lparr>msg_hdr_byte := 0x32, msg_rem_len := 9\<rparr>))
   \<and> frame_len_ok (client_connected\<lparr>msg_hdr_byte := 0x32, msg_rem_len := 9\<rparr>)
         [0x00, 0x03, 0x61, 0x2F, 0x62, 0x00, 0x07, 0x58, 0x59]
   \<and> reads_len_ok (client_connected\<lparr>msg_hdr_byte := 0x32, msg_rem_len := 9\<rparr>)
         [0x00, 0x03, 0x61, 0x2F, 0x62, 0x00, 0x07, 0x58, 0x59]
   \<and> mqtt_process_incoming_message (client_connected\<lparr>msg_hdr_byte := 0x32, msg_rem_len := 9\<rparr>)
         [0x00, 0x03, 0x61, 0x2F, 0x62, 0x00, 0x07, 0x58, 0x59] \<noteq> None
   \<and> length [0x00 :: u8]
     = unat (msg_rem_len (client_connected\<lparr>msg_hdr_byte := 0x20, msg_rem_len := 1\<rparr>))
   \<and> \<not> reads_len_ok (client_connected\<lparr>msg_hdr_byte := 0x20, msg_rem_len := 1\<rparr>) [0x00]
   \<and> mqtt_process_incoming_message (client_connected\<lparr>msg_hdr_byte := 0x20, msg_rem_len := 1\<rparr>)
         [0x00] = None"
proof -
  have ev: "length [0x00, 0x03, 0x61, 0x2F, 0x62, 0x00, 0x07, 0x58, 0x59 :: u8]
       = unat (msg_rem_len (client_connected\<lparr>msg_hdr_byte := 0x32, msg_rem_len := 9\<rparr>))"
    "frame_len_ok (client_connected\<lparr>msg_hdr_byte := 0x32, msg_rem_len := 9\<rparr>)
         [0x00, 0x03, 0x61, 0x2F, 0x62, 0x00, 0x07, 0x58, 0x59]"
    "length [0x00 :: u8]
       = unat (msg_rem_len (client_connected\<lparr>msg_hdr_byte := 0x20, msg_rem_len := 1\<rparr>))"
    "\<not> reads_len_ok (client_connected\<lparr>msg_hdr_byte := 0x20, msg_rem_len := 1\<rparr>) [0x00]"
    by code_simp+
  from process_reads_in_frame [OF ev(1)] process_reads_in_frame [OF ev(3)] ev show ?thesis
    by blast
qed

text \<open>
  Claim C10 as stated fails where it makes its lengths necessary.  A PUBLISH
  frame \<open>30 03 00 05 61\<close> at quality of service 0 announces a topic of five bytes
  in a remaining length of 3: the code reads \<open>rx_buff[0]\<close> and \<open>rx_buff[1]\<close> and
  hands the event a topic address and length without reading the topic, so every
  read is inside the frame though the frame is shorter than 2 + topic length.  A
  SUBACK frame \<open>90 02 00 09\<close> for which no request is pending is read inside its
  two bytes: \<open>rx_buff[2]\<close> is read only when a request was found.
\<close>

theorem process_reads_in_frame_counterexample:
  "length [0x00, 0x05, 0x61 :: u8]
     = unat (msg_rem_len (client_connected\<lparr>msg_hdr_byte := 0x30, msg_rem_len := 3\<rparr>))
   \<and> mqtt_process_incoming_message (client_connected\<lparr>msg_hdr_byte := 0x30, msg_rem_len := 3\<rparr>)
         [0x00, 0x05, 0x61] \<noteq> None
   \<and> \<not> frame_len_ok (client_connected\<lparr>msg_hdr_byte := 0x30, msg_rem_len := 3\<rparr>)
         [0x00, 0x05, 0x61]
   \<and> length [0x00, 0x09 :: u8]
     = unat (msg_rem_len (client_connected\<lparr>msg_hdr_byte := 0x90, msg_rem_len := 2\<rparr>))
   \<and> mqtt_process_incoming_message (client_connected\<lparr>msg_hdr_byte := 0x90, msg_rem_len := 2\<rparr>)
         [0x00, 0x09] \<noteq> None
   \<and> \<not> frame_len_ok (client_connected\<lparr>msg_hdr_byte := 0x90, msg_rem_len := 2\<rparr>)
         [0x00, 0x09]"
  by code_simp

end
